theory Spec2Isabelle
  imports Complex_Main "HOL-Library.AList" "HOL-Library.Extended_Nat"
begin

section \<open>Numbers\<close>

text \<open>
  The solver computes with numpy floats. They are modelled as the real numbers extended by
  the three special values of IEEE arithmetic; rounding and the sign of zero are not
  modelled. The special values follow the IEEE rules: NaN is absorbing, opposite
  infinities cancel to NaN, zero times infinity is NaN, every comparison with NaN is false.
\<close>

datatype npfloat = Fin real | PInf | NInf | NaN

instantiation npfloat :: comm_monoid_add
begin

definition zero_npfloat :: npfloat where
  "zero_npfloat = Fin 0"

fun plus_npfloat :: "npfloat \<Rightarrow> npfloat \<Rightarrow> npfloat" where
  "plus_npfloat (Fin a) (Fin b) = Fin (a + b)"
| "plus_npfloat NaN y = NaN"
| "plus_npfloat x NaN = NaN"
| "plus_npfloat PInf NInf = NaN"
| "plus_npfloat NInf PInf = NaN"
| "plus_npfloat PInf y = PInf"
| "plus_npfloat x PInf = PInf"
| "plus_npfloat NInf y = NInf"
| "plus_npfloat x NInf = NInf"

instance
proof (standard, goal_cases)
  case (1 x y z)
  then show ?case by (cases x; cases y; cases z; simp)
next
  case (2 x y)
  then show ?case by (cases x; cases y; simp)
next
  case (3 x)
  then show ?case by (cases x; simp add: zero_npfloat_def)
qed

end

instantiation npfloat :: "{one, uminus, minus, times, inverse}"
begin

definition one_npfloat :: npfloat where
  "one_npfloat = Fin 1"

fun uminus_npfloat :: "npfloat \<Rightarrow> npfloat" where
  "uminus_npfloat (Fin a) = Fin (- a)"
| "uminus_npfloat PInf = NInf"
| "uminus_npfloat NInf = PInf"
| "uminus_npfloat NaN = NaN"

definition minus_npfloat :: "npfloat \<Rightarrow> npfloat \<Rightarrow> npfloat" where
  "minus_npfloat x y = x + (- y)"

fun times_npfloat :: "npfloat \<Rightarrow> npfloat \<Rightarrow> npfloat" where
  "times_npfloat (Fin a) (Fin b) = Fin (a * b)"
| "times_npfloat NaN y = NaN"
| "times_npfloat x NaN = NaN"
| "times_npfloat (Fin a) PInf = (if a = 0 then NaN else if 0 < a then PInf else NInf)"
| "times_npfloat (Fin a) NInf = (if a = 0 then NaN else if 0 < a then NInf else PInf)"
| "times_npfloat PInf (Fin b) = (if b = 0 then NaN else if 0 < b then PInf else NInf)"
| "times_npfloat NInf (Fin b) = (if b = 0 then NaN else if 0 < b then NInf else PInf)"
| "times_npfloat PInf PInf = PInf"
| "times_npfloat PInf NInf = NInf"
| "times_npfloat NInf PInf = NInf"
| "times_npfloat NInf NInf = PInf"

fun divide_npfloat :: "npfloat \<Rightarrow> npfloat \<Rightarrow> npfloat" where
  "divide_npfloat (Fin a) (Fin b) =
     (if b = 0 then (if a = 0 then NaN else if 0 < a then PInf else NInf) else Fin (a / b))"
| "divide_npfloat NaN y = NaN"
| "divide_npfloat x NaN = NaN"
| "divide_npfloat (Fin a) PInf = Fin 0"
| "divide_npfloat (Fin a) NInf = Fin 0"
| "divide_npfloat PInf (Fin b) = (if 0 \<le> b then PInf else NInf)"
| "divide_npfloat NInf (Fin b) = (if 0 \<le> b then NInf else PInf)"
| "divide_npfloat PInf PInf = NaN"
| "divide_npfloat PInf NInf = NaN"
| "divide_npfloat NInf PInf = NaN"
| "divide_npfloat NInf NInf = NaN"

definition inverse_npfloat :: "npfloat \<Rightarrow> npfloat" where
  "inverse_npfloat x = divide (Fin 1) x"

instance ..

end

text \<open>Comparisons: \<open>a <= b\<close>, \<open>a < b\<close> and \<open>a > b\<close> of Python on floats.\<close>

fun fle :: "npfloat \<Rightarrow> npfloat \<Rightarrow> bool" where
  "fle NaN y = False"
| "fle x NaN = False"
| "fle NInf y = True"
| "fle x PInf = True"
| "fle (Fin a) (Fin b) = (a \<le> b)"
| "fle PInf y = False"
| "fle x NInf = False"

fun flt :: "npfloat \<Rightarrow> npfloat \<Rightarrow> bool" where
  "flt NaN y = False"
| "flt x NaN = False"
| "flt PInf y = False"
| "flt x NInf = False"
| "flt (Fin a) (Fin b) = (a < b)"
| "flt NInf y = True"
| "flt x PInf = True"

definition fgt :: "npfloat \<Rightarrow> npfloat \<Rightarrow> bool" where
  "fgt x y = flt y x"

definition fge :: "npfloat \<Rightarrow> npfloat \<Rightarrow> bool" where
  "fge x y = fle y x"

text \<open>\<open>numpy.isnan\<close>, \<open>numpy.isfinite\<close>, \<open>numpy.sqrt\<close>.\<close>

fun isnan :: "npfloat \<Rightarrow> bool" where
  "isnan NaN = True"
| "isnan x = False"

fun isfinite :: "npfloat \<Rightarrow> bool" where
  "isfinite (Fin a) = True"
| "isfinite x = False"

fun np_sqrt :: "npfloat \<Rightarrow> npfloat" where
  "np_sqrt (Fin a) = (if a < 0 then NaN else Fin (sqrt a))"
| "np_sqrt PInf = PInf"
| "np_sqrt NInf = NaN"
| "np_sqrt NaN = NaN"

text \<open>
  Python's builtins \<open>min(a, b)\<close> and \<open>max(a, b)\<close> return the first argument unless
  the second is strictly smaller (larger); with a NaN first argument they return NaN.
\<close>

definition py_min :: "npfloat \<Rightarrow> npfloat \<Rightarrow> npfloat" where
  "py_min a b = (if flt b a then b else a)"

definition py_max :: "npfloat \<Rightarrow> npfloat \<Rightarrow> npfloat" where
  "py_max a b = (if fgt b a then b else a)"

type_synonym vec = "npfloat list"

text \<open>\<open>numpy.linalg.norm\<close> of a vector and \<open>numpy.dot\<close> of two vectors.\<close>

definition norm_vec :: "vec \<Rightarrow> npfloat" where
  "norm_vec v = np_sqrt (sum_list (map (\<lambda>x. x * x) v))"

definition dot :: "vec \<Rightarrow> vec \<Rightarrow> npfloat" where
  "dot u v = sum_list (map (\<lambda>(x, y). x * y) (zip u v))"

text \<open>
  Boolean-mask indexing \<open>v[~constrain]\<close>: the entries of \<open>v\<close> at the positions where the
  mask is False.
\<close>

definition free_part :: "bool list \<Rightarrow> vec \<Rightarrow> vec" where
  "free_part fixed v = map snd (filter (\<lambda>(c, x). \<not> c) (zip fixed v))"

section \<open>Errors\<close>

datatype error =
    AssertionError string
  | ValueError string
  | ModelError string
  | ZeroDivisionError
  | TypeError string
  | IndexError string

section \<open>Symbolic arrays\<close>

text \<open>
  Modelled from the spec: the symbolic array of the function module (the module itself is
  not among the sources). A symbolic array is an immutable expression tree; a Named
  Argument is a leaf with a name and a shape; every other node has an operation label and
  its operands in constructor order. The labels are the operations that the solver module
  itself builds: zero arrays, numeric constants, sums and products; any other operation of
  the function module is an \<open>Other\<close> node.
\<close>

text \<open>
  An argument name is a string, or the anonymous \<open>object()\<close> that \<open>thetamethod\<close>
  creates when it is given no name for the previous state.
\<close>

datatype argname = Str string | Obj

datatype oplabel = Zeros "nat list" | Constant npfloat | Add | Multiply | Other string

datatype expr = Argument argname "nat list" | Node oplabel "expr list"

text \<open>\<open>a + b\<close>, \<open>a * number\<close> and \<open>function.zeros(shape)\<close> on symbolic arrays.\<close>

definition expr_add :: "expr \<Rightarrow> expr \<Rightarrow> expr" where
  "expr_add a b = Node Add [a, b]"

definition expr_mul :: "expr \<Rightarrow> npfloat \<Rightarrow> expr" where
  "expr_mul a c = Node Multiply [a, Node (Constant c) []]"

definition zeros :: "nat list \<Rightarrow> expr" where
  "zeros shp = Node (Zeros shp) []"

text \<open>All nodes of an expression tree, the root included, in depth-first order.\<close>

fun nodes :: "expr \<Rightarrow> expr list" where
  "nodes (Argument n s) = [Argument n s]"
| "nodes (Node l cs) = Node l cs # concat (map nodes cs)"

fun children :: "expr \<Rightarrow> expr list" where
  "children (Argument n s) = []"
| "children (Node l cs) = cs"

section \<open>The argument resolver\<close>

text \<open>
  \<open>_find_argument\<close> defines a local function \<open>find\<close> that raises the local exception
  \<open>Found\<close> at an \<open>Argument\<close> of the requested name and otherwise descends with
  \<open>function.edit(value, find)\<close>, which applies \<open>find\<close> to the operands of \<open>value\<close> in
  order. The exception is modelled by an option: \<open>Some target\<close> is \<open>Found(target)\<close>
  raised.
\<close>

fun find :: "argname \<Rightarrow> expr \<Rightarrow> expr option"
  and find_all :: "argname \<Rightarrow> expr list \<Rightarrow> expr option" where
  "find name (Argument n s) = (if n = name then Some (Argument n s) else None)"
| "find name (Node l cs) = find_all name cs"
| "find_all name [] = None"
| "find_all name (c # cs) =
     (case find name c of Some t \<Rightarrow> Some t | None \<Rightarrow> find_all name cs)"

text \<open>\<open>function.edit(func, find)\<close> at the top level: \<open>find\<close> on each operand of \<open>func\<close>.\<close>

definition edit_find :: "argname \<Rightarrow> expr \<Rightarrow> expr option" where
  "edit_find name func = find_all name (children func)"

section \<open>Deferred integrals\<close>

text \<open>
  An \<open>Integral\<close> is a Python dict from (domain, quadrature scheme) keys to integrands,
  with a \<open>shape\<close> attribute. The dict is an association list in insertion order whose
  keys are distinct.
\<close>

type_synonym key = "nat \<times> string"

record integral =
  items :: "(key \<times> expr) list"
  shape :: "nat list"

definition wf_integral :: "integral \<Rightarrow> bool" where
  "wf_integral a = distinct (map fst (items a))"

definition keys :: "integral \<Rightarrow> key list" where
  "keys a = map fst (items a)"

definition get_item :: "integral \<Rightarrow> key \<Rightarrow> expr option" where
  "get_item a k = map_of (items a) k"

text \<open>\<open>Integral(integrand, domain, ischeme)\<close>; the shape is that of the integrand.\<close>

definition Integral :: "expr \<Rightarrow> nat list \<Rightarrow> key \<Rightarrow> integral" where
  "Integral integrand shp k = \<lparr>items = [(k, integrand)], shape = shp\<rparr>"

definition empty :: "nat list \<Rightarrow> integral" where
  "empty shp = \<lparr>items = [], shape = shp\<rparr>"

text \<open>
  The loop of \<open>__add__\<close>: \<open>add[k] += integrand\<close> replaces an entry in place by the
  symbolic sum, and on \<open>KeyError\<close> the entry is appended.
\<close>

fun add_items :: "(key \<times> expr) list \<Rightarrow> (key \<times> expr) list \<Rightarrow> (key \<times> expr) list" where
  "add_items acc [] = acc"
| "add_items acc ((k, integrand) # rest) =
     add_items
       (case map_of acc k of
          Some e \<Rightarrow> AList.update k (expr_add e integrand) acc
        | None \<Rightarrow> AList.update k integrand acc)
       rest"

definition integral_add :: "integral \<Rightarrow> integral \<Rightarrow> error + integral" where
  "integral_add a b =
     (if shape a = shape b
      then Inr \<lparr>items = add_items (items (empty (shape a)) @ items a) (items b),
                shape = shape a\<rparr>
      else Inl (AssertionError ''''))"

text \<open>\<open>__mul__\<close> by a number, \<open>__neg__\<close>, \<open>__sub__\<close>.\<close>

definition integral_mul :: "integral \<Rightarrow> npfloat \<Rightarrow> integral" where
  "integral_mul a c =
     \<lparr>items = map (\<lambda>(k, integrand). (k, expr_mul integrand c)) (items a), shape = shape a\<rparr>"

definition integral_neg :: "integral \<Rightarrow> integral" where
  "integral_neg a = integral_mul a (Fin (- 1))"

definition integral_sub :: "integral \<Rightarrow> integral \<Rightarrow> error + integral" where
  "integral_sub a b = integral_add a (integral_neg b)"

text \<open>
  \<open>__truediv__\<close> is \<open>self * (1/other)\<close>. For a Python number \<open>1/other\<close> raises
  \<open>ZeroDivisionError\<close> at zero; for a numpy float it follows IEEE.
\<close>

definition integral_truediv :: "integral \<Rightarrow> npfloat \<Rightarrow> error + integral" where
  "integral_truediv a c =
     (if c = Fin 0 then Inl ZeroDivisionError else Inr (integral_mul a (Fin 1 / c)))"

definition integral_truediv_np :: "integral \<Rightarrow> npfloat \<Rightarrow> integral" where
  "integral_truediv_np a c = integral_mul a (Fin 1 / c)"

text \<open>
  The inputs of \<open>_find_argument\<close>: integrals contribute their integrands in dict order,
  any other symbolic array is taken as it is, and a value that is not a symbolic array
  (\<open>None\<close>) has nothing to descend into.
\<close>

datatype func = FIntegral integral | FExpr expr | FNone

fun funcs_of :: "func list \<Rightarrow> expr option list" where
  "funcs_of [] = []"
| "funcs_of (FIntegral a # fs) = map (\<lambda>(k, e). Some e) (items a) @ funcs_of fs"
| "funcs_of (FExpr e # fs) = Some e # funcs_of fs"
| "funcs_of (FNone # fs) = None # funcs_of fs"

fun find_funcs :: "argname \<Rightarrow> expr option list \<Rightarrow> expr option" where
  "find_funcs name [] = None"
| "find_funcs name (None # fs) = find_funcs name fs"
| "find_funcs name (Some f # fs) =
     (case edit_find name f of Some t \<Rightarrow> Some t | None \<Rightarrow> find_funcs name fs)"

definition find_argument :: "argname \<Rightarrow> func list \<Rightarrow> error + expr" where
  "find_argument name funcs =
     (case find_funcs name (funcs_of funcs) of
        Some t \<Rightarrow> Inr t
      | None \<Rightarrow> Inl (ValueError ''target not found''))"




section \<open>Collaborators\<close>

text \<open>
  The solver module calls into modules that are not among the sources. Their functions are
  parameters of the model, collected in one record:
  \<^item> \<open>integrate\<close>: \<open>domain.obj.integrate\<close> for one integrand over the domain and scheme
    of a key under the given argument values (the evaluation cache \<open>fcache\<close> does not
    change values and is left out);
  \<^item> \<open>function_derivative\<close>: \<open>function.derivative(integrand, var=target)\<close>;
  \<^item> \<open>to_array\<close>: the float entries of an evaluated vector integral;
  \<^item> \<open>matrix_solve\<close>: \<open>jac.solve(rhs, constrain=cons)\<close> of the matrix module;
  \<^item> \<open>matrix_matvec\<close>: \<open>jac.matvec(vec)\<close>;
  \<^item> \<open>set_order\<close>: the order in which Python iterates over the set built from a
    sequence of keys.
  The type \<open>'v\<close> is that of evaluated integrals, which numpy adds up.
\<close>

type_synonym argvalues = "argname \<Rightarrow> vec option"

record 'v collab =
  integrate :: "key \<Rightarrow> expr \<Rightarrow> argvalues \<Rightarrow> 'v"
  function_derivative :: "expr \<Rightarrow> expr \<Rightarrow> expr"
  to_array :: "'v \<Rightarrow> vec"
  matrix_solve :: "'v \<Rightarrow> vec \<Rightarrow> vec \<Rightarrow> vec"
  matrix_matvec :: "'v \<Rightarrow> vec \<Rightarrow> vec"
  set_order :: "key list \<Rightarrow> key list"

text \<open>\<open>collections.ChainMap(a, b)\<close>: a key is looked up in \<open>a\<close> first.\<close>

definition ChainMap :: "argvalues \<Rightarrow> argvalues \<Rightarrow> argvalues" where
  "ChainMap a b = (\<lambda>k. case a k of Some v \<Rightarrow> Some v | None \<Rightarrow> b k)"

section \<open>Evaluation of integrals\<close>

text \<open>
  \<open>numpy.sum(retvals, axis=0)\<close> over the per-key result lists: the scalar zero for no
  key at all, otherwise the position-wise sum of the lists.
\<close>

datatype 'v evaluated = Scalar0 | Rows "'v list"

fun np_sum_axis0 :: "('v::comm_monoid_add) list list \<Rightarrow> 'v evaluated" where
  "np_sum_axis0 [] = Scalar0"
| "np_sum_axis0 (r # rs) = Rows (foldl (\<lambda>acc row. map2 (+) acc row) r rs)"

definition all_keys :: "integral list \<Rightarrow> key list" where
  "all_keys integrals = concat (map keys integrals)"

definition integrand_or_zeros :: "integral \<Rightarrow> key \<Rightarrow> expr" where
  "integrand_or_zeros a k = (case get_item a k of Some e \<Rightarrow> e | None \<Rightarrow> zeros (shape a))"

definition multieval ::
  "('v::comm_monoid_add) collab \<Rightarrow> integral list \<Rightarrow> argvalues \<Rightarrow> 'v evaluated" where
  "multieval C integrals arguments =
     np_sum_axis0
       (map (\<lambda>domain_ischeme.
               map (\<lambda>a. integrate C domain_ischeme (integrand_or_zeros a domain_ischeme) arguments)
                 integrals)
          (set_order C (all_keys integrals)))"

definition integral_eval ::
  "('v::comm_monoid_add) collab \<Rightarrow> integral \<Rightarrow> argvalues \<Rightarrow> 'v" where
  "integral_eval C a arguments =
     sum_list (map (\<lambda>(k, integrand). integrate C k integrand arguments) (items a))"

text \<open>The value that an evaluation result holds for the integral at a position.\<close>

fun value_at :: "('v::comm_monoid_add) evaluated \<Rightarrow> nat \<Rightarrow> 'v" where
  "value_at Scalar0 i = 0"
| "value_at (Rows vs) i = vs ! i"

text \<open>The unpacking \<open>res, jac = Integral.multieval(residual, jacobian, ...)\<close>.\<close>

fun unpack2 :: "'v evaluated \<Rightarrow> error + ('v \<times> 'v)" where
  "unpack2 (Rows [r, j]) = Inr (r, j)"
| "unpack2 x = Inl (TypeError ''cannot unpack'')"

section \<open>Derivative, substitution, containment\<close>

definition integral_derivative :: "'v collab \<Rightarrow> integral \<Rightarrow> argname \<Rightarrow> error + integral" where
  "integral_derivative C a target =
     (case find_argument target [FIntegral a] of
        Inl e \<Rightarrow> Inl e
      | Inr t \<Rightarrow>
          (case t of
             Argument n shp \<Rightarrow>
               if length shp = 1
               then Inr \<lparr>items = map (\<lambda>(k, integrand). (k, function_derivative C integrand t)) (items a),
                         shape = shape a @ shp\<rparr>
               else Inl (AssertionError '''')
           | Node l cs \<Rightarrow> Inl (AssertionError '''')))"

text \<open>
  Modelled from the spec: \<open>function.replace_arguments\<close>, which substitutes named
  arguments by replacement expressions throughout a tree.
\<close>

fun replace_arguments :: "expr \<Rightarrow> (argname \<Rightarrow> expr option) \<Rightarrow> expr" where
  "replace_arguments (Argument n s) m = (case m n of Some r \<Rightarrow> r | None \<Rightarrow> Argument n s)"
| "replace_arguments (Node l cs) m = Node l (map (\<lambda>c. replace_arguments c m) cs)"

definition integral_replace :: "integral \<Rightarrow> (argname \<Rightarrow> expr option) \<Rightarrow> integral" where
  "integral_replace a m =
     \<lparr>items = map (\<lambda>(k, integrand). (k, replace_arguments integrand m)) (items a),
      shape = shape a\<rparr>"

text \<open>
  \<open>contains\<close>: the target is among the nodes of some integrand (\<open>serialized[0]\<close> lists
  the nodes of an expression).
\<close>

definition contains :: "integral \<Rightarrow> expr \<Rightarrow> bool" where
  "contains a target = list_ex (\<lambda>(k, integrand). target \<in> set (nodes integrand)) (items a)"

section \<open>Generators and the driving loop\<close>

text \<open>
  A generator is a state and a function for \<open>next()\<close>; a call of \<open>next()\<close> yields a
  value, ends the generator (\<open>StopIteration\<close>) or raises. A call that never returns has
  no result (\<open>None\<close>). Messages written with \<open>log.info\<close> and \<open>log.warning\<close> by a
  generator are collected in its state; number formatting in the messages is left out.
  Arrays are yielded by value, as they are at the time of the yield.
\<close>

datatype logentry = Info string | Warning string

datatype 'y outcome = Yield 'y | StopIteration | Raise error

text \<open>
  \<open>solve(gen_lhs_resnorm, tol, maxiter)\<close>. The progress messages of \<open>solve\<close> itself are
  not modelled. \<open>solve_step\<close> is one round of the while loop: it returns the result of
  \<open>solve\<close> or the variables for the next round.
\<close>

datatype 's solve_step =
    SolveReturn "error + vec" 's
  | SolveContinue vec npfloat 's

definition solve_step ::
  "('s \<Rightarrow> ((vec \<times> npfloat) outcome \<times> 's) option) \<Rightarrow> npfloat \<Rightarrow> enat \<Rightarrow>
   's \<Rightarrow> vec \<Rightarrow> npfloat \<Rightarrow> nat \<Rightarrow> 's solve_step option" where
  "solve_step gen_next tol maxiter st lhs resnorm inewton =
     (if fgt resnorm tol
      then (if maxiter \<le> enat inewton
            then Some (SolveReturn (Inl (ModelError ''tolerance not reached'')) st)
            else (case gen_next st of
                    None \<Rightarrow> None
                  | Some (Yield (lhs', resnorm'), st') \<Rightarrow> Some (SolveContinue lhs' resnorm' st')
                  | Some (StopIteration, st') \<Rightarrow>
                      Some (SolveReturn
                        (Inl (ModelError ''generator stopped before reaching target tolerance'')) st')
                  | Some (Raise e, st') \<Rightarrow> Some (SolveReturn (Inl e) st')))
      else Some (SolveReturn (Inr lhs) st))"

partial_function (option) solve_loop ::
  "('s \<Rightarrow> ((vec \<times> npfloat) outcome \<times> 's) option) \<Rightarrow> npfloat \<Rightarrow> enat \<Rightarrow>
   's \<Rightarrow> vec \<Rightarrow> npfloat \<Rightarrow> nat \<Rightarrow> ((error + vec) \<times> 's) option" where
  "solve_loop gen_next tol maxiter st lhs resnorm inewton =
     (case solve_step gen_next tol maxiter st lhs resnorm inewton of
        None \<Rightarrow> None
      | Some (SolveReturn r st') \<Rightarrow> Some (r, st')
      | Some (SolveContinue lhs' resnorm' st') \<Rightarrow>
          solve_loop gen_next tol maxiter st' lhs' resnorm' (Suc inewton))"

definition solve ::
  "('s \<Rightarrow> ((vec \<times> npfloat) outcome \<times> 's) option) \<Rightarrow> 's \<Rightarrow> npfloat \<Rightarrow> enat \<Rightarrow>
   ((error + vec) \<times> 's) option" where
  "solve gen_next st tol maxiter =
     (case gen_next st of
        None \<Rightarrow> None
      | Some (Yield (lhs, resnorm), st') \<Rightarrow> solve_loop gen_next tol maxiter st' lhs resnorm 0
      | Some (StopIteration, st') \<Rightarrow>
          Some (Inl (ModelError ''generator stopped before reaching target tolerance''), st')
      | Some (Raise e, st') \<Rightarrow> Some (Inl e, st'))"

section \<open>Arguments of the solvers\<close>

text \<open>
  A constraint vector is boolean (\<open>True\<close> marks a fixed entry) or float (NaN marks a free
  entry, any other value is imposed).
\<close>

datatype constraint = CBool "bool list" | CFloat vec

record problem =
  target :: argname
  residual :: integral
  constrain :: "constraint option"
  arguments :: argvalues

text \<open>The keyword arguments of \<open>newton\<close> that govern the line search, and their defaults.\<close>

record tuning =
  nrelax :: enat
  minrelax :: npfloat
  maxrelax :: npfloat
  rebound :: npfloat

definition default_tuning :: tuning where
  "default_tuning =
     \<lparr>nrelax = \<infinity>, minrelax = Fin (1/10), maxrelax = Fin (9/10), rebound = Fin (sqrt 2)\<rparr>"

definition np_zeros :: "nat list \<Rightarrow> vec" where
  "np_zeros shp = replicate (prod_list shp) (Fin 0)"

text \<open>The shape of a vector as numpy reports it.\<close>

definition vshape :: "'a list \<Rightarrow> nat list" where
  "vshape v = [length v]"

text \<open>
  The normalisation of the constraint argument, shared by the solvers: the result is the
  initial iterate and the boolean mask of the fixed entries.
\<close>

definition normalize_constrain ::
  "integral \<Rightarrow> constraint option \<Rightarrow> vec \<Rightarrow> error + (vec \<times> bool list)" where
  "normalize_constrain resid cons lhs0 =
     (case cons of
        None \<Rightarrow> Inr (lhs0, replicate (prod_list (shape resid)) False)
      | Some (CBool b) \<Rightarrow>
          if vshape b = shape resid then Inr (lhs0, b)
          else Inl (AssertionError ''invalid constrain argument'')
      | Some (CFloat c) \<Rightarrow>
          if vshape c = shape resid
          then Inr (map2 (\<lambda>ci li. if isnan ci then li else ci) c lhs0, map (\<lambda>ci. \<not> isnan ci) c)
          else Inl (AssertionError ''invalid constrain argument''))"

text \<open>\<open>v = numpy.zeros(n); v[~constrain] = nan\<close> and \<open>v = lhs0.copy(); v[~constrain] = nan\<close>.\<close>

definition nan_where_free :: "bool list \<Rightarrow> vec \<Rightarrow> vec" where
  "nan_where_free fixed v = map2 (\<lambda>c x. if c then x else NaN) fixed v"

definition arg_shape :: "expr \<Rightarrow> nat list" where
  "arg_shape t = (case t of Argument n shp \<Rightarrow> shp | Node l cs \<Rightarrow> [])"

definition make_zcons :: "expr \<Rightarrow> bool list \<Rightarrow> error + vec" where
  "make_zcons resolved_target fixed =
     (if hd (arg_shape resolved_target) = length fixed
      then Inr (nan_where_free fixed (replicate (length fixed) (Fin 0)))
      else Inl (IndexError ''boolean index did not match''))"

text \<open>Vector arithmetic of numpy: \<open>lhs + relax * dlhs\<close>, \<open>-v\<close>, \<open>u - v\<close>.\<close>

definition axpy :: "vec \<Rightarrow> npfloat \<Rightarrow> vec \<Rightarrow> vec" where
  "axpy lhs relax dlhs = map2 (+) lhs (map (\<lambda>d. relax * d) dlhs)"

definition vneg :: "vec \<Rightarrow> vec" where
  "vneg v = map uminus v"

definition vsub :: "vec \<Rightarrow> vec \<Rightarrow> vec" where
  "vsub u v = map2 (-) u v"

section \<open>The Newton iterator\<close>

text \<open>
  The local variables of \<open>newton\<close> that live across the yields of its while loop:
  the normalised constraint mask, the Jacobian integral, the zero constraints, the
  iterate, the evaluated residual and Jacobian, the residual norm and the relaxation.
\<close>

record 'v iterating =
  s_constrain :: "bool list"
  s_jacobian :: integral
  s_zcons :: vec
  s_lhs :: vec
  s_res :: 'v
  s_jac :: 'v
  s_resnorm :: npfloat
  s_relax :: npfloat

text \<open>
  Where the generator is suspended: not started, at the yield of the linear shortcut, at
  the yield of the while loop, or finished.
\<close>

datatype 'v newton_state = NStart | NLinear | NIter "'v iterating" | NDone

text \<open>\<open>Integral.multieval(residual, jacobian, ...)\<close> with the target bound to a vector.\<close>

definition eval_res_jac ::
  "('v::comm_monoid_add) collab \<Rightarrow> problem \<Rightarrow> integral \<Rightarrow> vec \<Rightarrow> error + ('v \<times> 'v)" where
  "eval_res_jac C P jacobian x =
     unpack2 (multieval C [residual P, jacobian]
                (ChainMap (arguments P) [target P \<mapsto> x]))"

text \<open>
  One round of the line-search loop \<open>for irelax in itertools.count()\<close>: the generator
  returns (diverged), the loop is left with a \<open>break\<close> (accepted), the evaluation raises,
  or the loop goes round with a smaller relaxation.
\<close>

datatype 'v ls_result =
    LSDiverged "logentry list"
  | LSAccepted 'v 'v npfloat "logentry list"
  | LSRaised error "logentry list"

datatype 'v ls_step = LSReturn "'v ls_result" | LSRetry npfloat "logentry list"

definition sq :: "npfloat \<Rightarrow> npfloat" where
  "sq x = x * x"

text \<open>The estimate \<open>newrelax\<close> of the cubic or quadratic model, with its message.\<close>

definition estimate_relax ::
  "npfloat \<Rightarrow> npfloat \<Rightarrow> npfloat \<Rightarrow> npfloat \<Rightarrow> npfloat \<times> logentry" where
  "estimate_relax r0 d0 r1 d1 =
     (let D = Fin 2 * r0 - Fin 2 * r1 + d0 + d1 in
      if fgt D (Fin 0)
      then (let C = Fin 3 * r1 - Fin 3 * r0 - Fin 2 * d0 - d1 in
            ((np_sqrt (sq C - Fin 3 * d0 * D) - C) / (Fin 3 * D),
             Info ''minimum based on 3rd order estimation''))
      else (let C = r1 - r0 - d0 in
            (Fin (- (1/2)) * d0 / C,
             Info ''minimum based on 2nd order estimation'')))"

definition line_search_step ::
  "('v::comm_monoid_add) collab \<Rightarrow> problem \<Rightarrow> tuning \<Rightarrow> 'v iterating \<Rightarrow> vec \<Rightarrow>
   npfloat \<Rightarrow> nat \<Rightarrow> logentry list \<Rightarrow> 'v ls_step" where
  "line_search_step C P T s dlhs relax irelax logged =
     (case eval_res_jac C P (s_jacobian s) (axpy (s_lhs s) relax dlhs) of
        Inl e \<Rightarrow> LSReturn (LSRaised e logged)
      | Inr (res, jac) \<Rightarrow>
          (let newresnorm = norm_vec (free_part (s_constrain s) (to_array C res)) in
           if nrelax T \<le> enat irelax
           then (if fgt newresnorm (s_resnorm s)
                 then LSReturn (LSDiverged (logged @ [Warning ''failed to decrease residual'']))
                 else LSReturn (LSAccepted res jac relax logged))
           else if \<not> isfinite newresnorm
           then LSRetry (relax * py_max (Fin 0) (minrelax T))
                  (logged @ [Info ''failed to evaluate residual''])
           else (let r0 = sq (s_resnorm s);
                     d0 = Fin (- 2) * r0;
                     r1 = sq newresnorm;
                     d1 = Fin 2 * dot (free_part (s_constrain s) (matrix_matvec C jac dlhs))
                                      (free_part (s_constrain s) (to_array C res));
                     logged1 = logged @ [Info ''line search'']
                 in if fle r1 r0 \<and> fle d1 (Fin 0)
                    then LSReturn (LSAccepted res jac relax logged1)
                    else (case estimate_relax r0 d0 r1 d1 of
                            (newrelax, msg) \<Rightarrow>
                              if fgt newrelax (maxrelax T)
                              then LSReturn (LSAccepted res jac relax (logged1 @ [msg]))
                              else LSRetry (relax * py_max newrelax (minrelax T))
                                     (logged1 @ [msg])))))"

partial_function (option) line_search ::
  "('v::comm_monoid_add) collab \<Rightarrow> problem \<Rightarrow> tuning \<Rightarrow> 'v iterating \<Rightarrow> vec \<Rightarrow>
   npfloat \<Rightarrow> nat \<Rightarrow> logentry list \<Rightarrow> 'v ls_result option" where
  "line_search C P T s dlhs relax irelax logged =
     (case line_search_step C P T s dlhs relax irelax logged of
        LSRetry relax' logged' \<Rightarrow> line_search C P T s dlhs relax' (Suc irelax) logged'
      | LSReturn r \<Rightarrow> Some r)"

text \<open>The code of \<open>newton\<close> from its entry to its first yield.\<close>

definition check_lhs0 :: "integral \<Rightarrow> vec option \<Rightarrow> error + vec" where
  "check_lhs0 resid lhs0 =
     (case lhs0 of
        None \<Rightarrow> Inr (np_zeros (shape resid))
      | Some l \<Rightarrow>
          if vshape l = shape resid then Inr l
          else Inl (AssertionError ''invalid lhs0 argument''))"

type_synonym 'v newton_result =
  "(vec \<times> npfloat) outcome \<times> 'v newton_state \<times> logentry list"

definition newton_linear ::
  "('v::comm_monoid_add) collab \<Rightarrow> problem \<Rightarrow> expr \<Rightarrow> integral \<Rightarrow> vec \<Rightarrow> bool list \<Rightarrow>
   logentry list \<Rightarrow> 'v newton_result" where
  "newton_linear C P resolved_target jacobian lhs0 fixed logged =
     (let logged1 = logged @ [Info ''problem is linear''] in
      case eval_res_jac C P jacobian (np_zeros (arg_shape resolved_target)) of
        Inl e \<Rightarrow> (Raise e, NDone, logged1)
      | Inr (res, jac) \<Rightarrow>
          (let cons = nan_where_free fixed lhs0;
               lhs = matrix_solve C jac (vneg (to_array C res)) cons
           in (Yield (lhs, Fin 0), NLinear, logged1)))"

definition newton_first ::
  "('v::comm_monoid_add) collab \<Rightarrow> problem \<Rightarrow> expr \<Rightarrow> integral \<Rightarrow> vec \<Rightarrow> bool list \<Rightarrow>
   logentry list \<Rightarrow> 'v newton_result" where
  "newton_first C P resolved_target jacobian lhs0 fixed logged =
     (case eval_res_jac C P jacobian lhs0 of
        Inl e \<Rightarrow> (Raise e, NDone, logged)
      | Inr (res, jac) \<Rightarrow>
          (case make_zcons resolved_target fixed of
             Inl e \<Rightarrow> (Raise e, NDone, logged)
           | Inr zcons \<Rightarrow>
               (let resnorm = norm_vec (free_part fixed (to_array C res))
                in (Yield (lhs0, resnorm),
                    NIter \<lparr>s_constrain = fixed, s_jacobian = jacobian, s_zcons = zcons,
                           s_lhs = lhs0, s_res = res, s_jac = jac, s_resnorm = resnorm,
                           s_relax = Fin 1\<rparr>,
                    logged))))"

definition newton_start ::
  "('v::comm_monoid_add) collab \<Rightarrow> problem \<Rightarrow> vec option \<Rightarrow> logentry list \<Rightarrow>
   'v newton_result" where
  "newton_start C P lhs0 logged =
     (if target P \<in> dom (arguments P)
      then (Raise (AssertionError ''`target` should not be defined in `arguments`''), NDone, logged)
      else case find_argument (target P) [FIntegral (residual P)] of
        Inl e \<Rightarrow> (Raise e, NDone, logged)
      | Inr resolved_target \<Rightarrow>
          (case check_lhs0 (residual P) lhs0 of
             Inl e \<Rightarrow> (Raise e, NDone, logged)
           | Inr lhs0' \<Rightarrow>
               (case normalize_constrain (residual P) (constrain P) lhs0' of
                  Inl e \<Rightarrow> (Raise e, NDone, logged)
                | Inr (lhs0'', fixed) \<Rightarrow>
                    (case integral_derivative C (residual P) (target P) of
                       Inl e \<Rightarrow> (Raise e, NDone, logged)
                     | Inr jacobian \<Rightarrow>
                         if \<not> contains jacobian resolved_target
                         then newton_linear C P resolved_target jacobian lhs0'' fixed logged
                         else newton_first C P resolved_target jacobian lhs0'' fixed logged))))"

text \<open>
  The code of \<open>newton\<close> from the yield of the while loop to the next yield: the Newton
  step, the line search and the update of the iterate.
\<close>

definition newton_iterate ::
  "('v::comm_monoid_add) collab \<Rightarrow> problem \<Rightarrow> tuning \<Rightarrow> 'v iterating \<Rightarrow> logentry list \<Rightarrow>
   'v newton_result option" where
  "newton_iterate C P T s logged =
     (let dlhs = vneg (matrix_solve C (s_jac s) (to_array C (s_res s)) (s_zcons s));
          relax = py_min (s_relax s * rebound T) (Fin 1)
      in case line_search C P T s dlhs relax 0 logged of
           None \<Rightarrow> None
         | Some (LSDiverged logged') \<Rightarrow> Some (StopIteration, NDone, logged')
         | Some (LSRaised e logged') \<Rightarrow> Some (Raise e, NDone, logged')
         | Some (LSAccepted res jac relax' logged') \<Rightarrow>
             (let lhs = axpy (s_lhs s) relax' dlhs;
                  resnorm = norm_vec (free_part (s_constrain s) (to_array C res))
              in Some (Yield (lhs, resnorm),
                       NIter (s\<lparr>s_lhs := lhs, s_res := res, s_jac := jac,
                               s_resnorm := resnorm, s_relax := relax'\<rparr>),
                       logged')))"

text \<open>\<open>next()\<close> on the generator that \<open>newton(target, residual, lhs0, ...)\<close> returns.\<close>

definition newton_next ::
  "('v::comm_monoid_add) collab \<Rightarrow> problem \<Rightarrow> vec option \<Rightarrow> tuning \<Rightarrow>
   'v newton_state \<times> logentry list \<Rightarrow> 'v newton_result option" where
  "newton_next C P lhs0 T st =
     (case st of
        (NStart, logged) \<Rightarrow> Some (newton_start C P lhs0 logged)
      | (NLinear, logged) \<Rightarrow> Some (StopIteration, NDone, logged)
      | (NIter s, logged) \<Rightarrow> newton_iterate C P T s logged
      | (NDone, logged) \<Rightarrow> Some (StopIteration, NDone, logged))"

section \<open>Pseudo-time continuation\<close>

text \<open>
  The local variables of \<open>pseudotime\<close> that live across the yields of its while loop.
  \<open>pt_residual\<close> is \<open>residual\<close> after \<open>residual += residual0\<close>; \<open>pt_thistimestep\<close>
  is the local \<open>thistimestep\<close>, unbound before the first round.
\<close>

record 'v pt_iterating =
  pt_residual :: integral
  pt_jacobian0 :: integral
  pt_jacobiant :: integral
  pt_constrain :: "bool list"
  pt_zcons :: vec
  pt_lhs :: vec
  pt_res :: 'v
  pt_jac :: 'v
  pt_resnorm :: npfloat
  pt_resnorm0 :: npfloat
  pt_thistimestep :: "npfloat option"

datatype 'v pt_state = PStart | PIter "'v pt_iterating" | PDone

type_synonym 'v pt_result =
  "(vec \<times> npfloat) outcome \<times> 'v pt_state \<times> logentry list"

definition multieval2 ::
  "('v::comm_monoid_add) collab \<Rightarrow> integral \<Rightarrow> integral \<Rightarrow> argvalues \<Rightarrow> argname \<Rightarrow> vec \<Rightarrow>
   error + ('v \<times> 'v)" where
  "multieval2 C a b args name x = unpack2 (multieval C [a, b] (ChainMap args [name \<mapsto> x]))"

definition pt_setup ::
  "('v::comm_monoid_add) collab \<Rightarrow> problem \<Rightarrow> integral \<Rightarrow> npfloat \<Rightarrow> vec \<Rightarrow> integral option \<Rightarrow>
   integral \<Rightarrow> integral \<Rightarrow> integral \<Rightarrow> logentry list \<Rightarrow> 'v pt_result" where
  "pt_setup C P inertia timestep lhs0 residual0 jacobian0 jacobiant resid logged =
     (case normalize_constrain resid (constrain P) lhs0 of
        Inl e \<Rightarrow> (Raise e, PDone, logged)
      | Inr (lhs, fixed) \<Rightarrow>
     (case find_argument (target P)
             [FIntegral resid, (case residual0 of None \<Rightarrow> FNone | Some r0 \<Rightarrow> FIntegral r0)] of
        Inl e \<Rightarrow> (Raise e, PDone, logged)
      | Inr resolved_target \<Rightarrow>
     (case make_zcons resolved_target fixed of
        Inl e \<Rightarrow> (Raise e, PDone, logged)
      | Inr zcons \<Rightarrow>
     (case integral_truediv jacobiant timestep of
        Inl e \<Rightarrow> (Raise e, PDone, logged)
      | Inr jt \<Rightarrow>
     (case integral_add jacobian0 jt of
        Inl e \<Rightarrow> (Raise e, PDone, logged)
      | Inr jacobian \<Rightarrow>
     (case multieval2 C resid jacobian (arguments P) (target P) lhs of
        Inl e \<Rightarrow> (Raise e, PDone, logged)
      | Inr (res, jac) \<Rightarrow>
          (let resnorm = norm_vec (free_part fixed (to_array C res))
           in (Yield (lhs, resnorm),
               PIter \<lparr>pt_residual = resid, pt_jacobian0 = jacobian0, pt_jacobiant = jacobiant,
                      pt_constrain = fixed, pt_zcons = zcons, pt_lhs = lhs, pt_res = res,
                      pt_jac = jac, pt_resnorm = resnorm, pt_resnorm0 = resnorm,
                      pt_thistimestep = None\<rparr>,
               logged))))))))"

text \<open>The code of \<open>pseudotime\<close> from its entry to its first yield.\<close>

definition pseudotime_start ::
  "('v::comm_monoid_add) collab \<Rightarrow> problem \<Rightarrow> integral \<Rightarrow> npfloat \<Rightarrow> vec \<Rightarrow> integral option \<Rightarrow>
   logentry list \<Rightarrow> 'v pt_result" where
  "pseudotime_start C P inertia timestep lhs0 residual0 logged =
     (if target P \<in> dom (arguments P)
      then (Raise (AssertionError ''`target` should not be defined in `arguments`''), PDone, logged)
      else case integral_derivative C (residual P) (target P) of
        Inl e \<Rightarrow> (Raise e, PDone, logged)
      | Inr jacobian0 \<Rightarrow>
     (case integral_derivative C inertia (target P) of
        Inl e \<Rightarrow> (Raise e, PDone, logged)
      | Inr jacobiant \<Rightarrow>
     (case (case residual0 of None \<Rightarrow> Inr (residual P)
                            | Some r0 \<Rightarrow> integral_add (residual P) r0) of
        Inl e \<Rightarrow> (Raise e, PDone, logged)
      | Inr resid \<Rightarrow>
          pt_setup C P inertia timestep lhs0 residual0 jacobian0 jacobiant resid logged)))"

text \<open>The code of \<open>pseudotime\<close> from one yield to the next.\<close>

definition pseudotime_iterate ::
  "('v::comm_monoid_add) collab \<Rightarrow> problem \<Rightarrow> npfloat \<Rightarrow> 'v pt_iterating \<Rightarrow> logentry list \<Rightarrow>
   'v pt_result" where
  "pseudotime_iterate C P timestep s logged =
     (let lhs = vsub (pt_lhs s) (matrix_solve C (pt_jac s) (to_array C (pt_res s)) (pt_zcons s));
          thistimestep = timestep * (pt_resnorm0 s / pt_resnorm s);
          logged1 = logged @ [Info ''timestep'']
      in case integral_add (pt_jacobian0 s) (integral_truediv_np (pt_jacobiant s) thistimestep) of
           Inl e \<Rightarrow> (Raise e, PDone, logged1)
         | Inr jacobian \<Rightarrow>
        (case multieval2 C (pt_residual s) jacobian (arguments P) (target P) lhs of
           Inl e \<Rightarrow> (Raise e, PDone, logged1)
         | Inr (res, jac) \<Rightarrow>
             (let resnorm = norm_vec (free_part (pt_constrain s) (to_array C res))
              in (Yield (lhs, resnorm),
                  PIter (s\<lparr>pt_lhs := lhs, pt_res := res, pt_jac := jac, pt_resnorm := resnorm,
                          pt_thistimestep := Some thistimestep\<rparr>),
                  logged1))))"

definition pseudotime_next ::
  "('v::comm_monoid_add) collab \<Rightarrow> problem \<Rightarrow> integral \<Rightarrow> npfloat \<Rightarrow> vec \<Rightarrow> integral option \<Rightarrow>
   'v pt_state \<times> logentry list \<Rightarrow> 'v pt_result option" where
  "pseudotime_next C P inertia timestep lhs0 residual0 st =
     (case st of
        (PStart, logged) \<Rightarrow> Some (pseudotime_start C P inertia timestep lhs0 residual0 logged)
      | (PIter s, logged) \<Rightarrow> Some (pseudotime_iterate C P timestep s logged)
      | (PDone, logged) \<Rightarrow> Some (StopIteration, PDone, logged))"

section \<open>The theta method\<close>

text \<open>
  Where the generator of \<open>thetamethod\<close> is suspended. At the yield of its while loop its
  locals are the combined residual \<open>res\<close>, the name \<open>target0\<close> and the state \<open>lhs\<close>.
\<close>

datatype theta_state = TStart | TIter integral argname vec | TDone

type_synonym theta_result = "vec outcome \<times> theta_state \<times> logentry list"

text \<open>\<open>if target0: ... else: target0 = object()\<close>; the empty string is false in Python.\<close>

definition resolve_target0 :: "string option \<Rightarrow> argvalues \<Rightarrow> error + argname" where
  "resolve_target0 target0 args =
     (case target0 of
        None \<Rightarrow> Inr Obj
      | Some n \<Rightarrow>
          if n = [] then Inr Obj
          else if Str n \<in> dom args
          then Inl (AssertionError ''`target0` should not be defined in `arguments`'')
          else Inr (Str n))"

definition theta_residual ::
  "problem \<Rightarrow> integral \<Rightarrow> npfloat \<Rightarrow> npfloat \<Rightarrow> argname \<Rightarrow> vec \<Rightarrow> error + integral" where
  "theta_residual P inertia timestep theta target0 lhs =
     (case integral_truediv inertia timestep of
        Inl e \<Rightarrow> Inl e
      | Inr it \<Rightarrow>
     (case integral_add (integral_mul (residual P) theta) it of
        Inl e \<Rightarrow> Inl e
      | Inr res0 \<Rightarrow>
     (case integral_sub (integral_mul (residual P) (Fin 1 - theta)) it of
        Inl e \<Rightarrow> Inl e
      | Inr res1 \<Rightarrow>
          integral_add res0
            (integral_replace res1 [target P \<mapsto> Argument target0 (vshape lhs)]))))"

text \<open>The code of \<open>thetamethod\<close> from its entry to its first yield.\<close>

definition thetamethod_start ::
  "problem \<Rightarrow> integral \<Rightarrow> npfloat \<Rightarrow> vec \<Rightarrow> npfloat \<Rightarrow> string option \<Rightarrow> logentry list \<Rightarrow>
   theta_result" where
  "thetamethod_start P inertia timestep lhs0 theta target0 logged =
     (if target P \<in> dom (arguments P)
      then (Raise (AssertionError ''`target` should not be defined in `arguments`''), TDone, logged)
      else case resolve_target0 target0 (arguments P) of
        Inl e \<Rightarrow> (Raise e, TDone, logged)
      | Inr target0' \<Rightarrow>
     (case theta_residual P inertia timestep theta target0' lhs0 of
        Inl e \<Rightarrow> (Raise e, TDone, logged)
      | Inr res \<Rightarrow> (Yield lhs0, TIter res target0' lhs0, logged)))"

text \<open>
  The Newton problem of one time step: \<open>newton(target, residual=res, lhs0=lhs,
  constrain=constrain, arguments=ChainMap(arguments or {}, {target0: lhs}), **newtonargs)\<close>.
\<close>

definition step_problem :: "problem \<Rightarrow> integral \<Rightarrow> argname \<Rightarrow> vec \<Rightarrow> problem" where
  "step_problem P res target0 lhs =
     \<lparr>target = target P, residual = res, constrain = constrain P,
      arguments = ChainMap (arguments P) [target0 \<mapsto> lhs]\<rparr>"

text \<open>
  The code of \<open>thetamethod\<close> from one yield to the next:
  \<open>newton(...).solve(tol=tol)\<close> on a fresh Newton generator.
\<close>

definition thetamethod_iterate ::
  "('v::comm_monoid_add) collab \<Rightarrow> problem \<Rightarrow> tuning \<Rightarrow> npfloat \<Rightarrow>
   integral \<Rightarrow> argname \<Rightarrow> vec \<Rightarrow> logentry list \<Rightarrow> theta_result option" where
  "thetamethod_iterate C P T tol res target0 lhs logged =
     (case solve (newton_next C (step_problem P res target0 lhs) (Some lhs) T)
             (NStart, logged) tol \<infinity> of
        None \<Rightarrow> None
      | Some (Inl e, (st, logged')) \<Rightarrow> Some (Raise e, TDone, logged')
      | Some (Inr lhs', (st, logged')) \<Rightarrow> Some (Yield lhs', TIter res target0 lhs', logged'))"

definition thetamethod_next ::
  "('v::comm_monoid_add) collab \<Rightarrow> problem \<Rightarrow> integral \<Rightarrow> npfloat \<Rightarrow> vec \<Rightarrow> npfloat \<Rightarrow>
   string option \<Rightarrow> npfloat \<Rightarrow> tuning \<Rightarrow> theta_state \<times> logentry list \<Rightarrow> theta_result option" where
  "thetamethod_next C P inertia timestep lhs0 theta target0 tol T st =
     (case st of
        (TStart, logged) \<Rightarrow> Some (thetamethod_start P inertia timestep lhs0 theta target0 logged)
      | (TIter res target0' lhs, logged) \<Rightarrow> thetamethod_iterate C P T tol res target0' lhs logged
      | (TDone, logged) \<Rightarrow> Some (StopIteration, TDone, logged))"

text \<open>\<open>impliciteuler = functools.partial(thetamethod, theta=1)\<close>.\<close>

definition impliciteuler_next ::
  "('v::comm_monoid_add) collab \<Rightarrow> problem \<Rightarrow> integral \<Rightarrow> npfloat \<Rightarrow> vec \<Rightarrow>
   string option \<Rightarrow> npfloat \<Rightarrow> tuning \<Rightarrow> theta_state \<times> logentry list \<Rightarrow> theta_result option" where
  "impliciteuler_next C P inertia timestep lhs0 target0 tol T st =
     thetamethod_next C P inertia timestep lhs0 (Fin 1) target0 tol T st"

text \<open>Drawing from a generator: the outcomes of the first \<open>n\<close> calls of \<open>next()\<close>.\<close>

fun draw :: "('s \<Rightarrow> ('y outcome \<times> 's) option) \<Rightarrow> nat \<Rightarrow> 's \<Rightarrow> ('y outcome list \<times> 's) option" where
  "draw gen_next 0 st = Some ([], st)"
| "draw gen_next (Suc n) st =
     (case gen_next st of
        None \<Rightarrow> None
      | Some (y, st') \<Rightarrow>
          (case draw gen_next n st' of
             None \<Rightarrow> None
           | Some (ys, st'') \<Rightarrow> Some (y # ys, st'')))"

section \<open>An instance of the collaborators\<close>

text \<open>
  Modelled from the spec: an instance of the external collaborators (symbolic
  differentiation, integration over a domain and the constrained linear solve), on which the
  model is run for concrete problems. It has two decoupled degrees of freedom: a
  symbolic array denotes a pair of numbers, sums and products act entry by entry, the
  domain is a single point of weight one, and a Jacobian is a diagonal matrix, held by its
  diagonal. The constrained solve returns the imposed value at a fixed entry and solves
  the diagonal equation at a free entry, as the interface of the linear solver demands.
\<close>

datatype dof2 = D2 npfloat npfloat

instantiation dof2 :: comm_monoid_add
begin

definition zero_dof2 :: dof2 where
  "zero_dof2 = D2 (Fin 0) (Fin 0)"

fun plus_dof2 :: "dof2 \<Rightarrow> dof2 \<Rightarrow> dof2" where
  "plus_dof2 (D2 a b) (D2 c d) = D2 (a + c) (b + d)"

instance
proof (standard, goal_cases)
  case (1 u v w)
  then show ?case by (cases u; cases v; cases w; simp add: add.assoc)
next
  case (2 u v)
  then show ?case by (cases u; cases v; simp add: add.commute)
next
  case (3 u)
  then show ?case by (cases u; simp add: zero_dof2_def flip: zero_npfloat_def)
qed

end

fun times2 :: "dof2 \<Rightarrow> dof2 \<Rightarrow> dof2" where
  "times2 (D2 a b) (D2 c d) = D2 (a * c) (b * d)"

fun expr_value :: "argvalues \<Rightarrow> expr \<Rightarrow> dof2" where
  "expr_value args (Argument n s) =
     (case args n of Some [x, y] \<Rightarrow> D2 x y | _ \<Rightarrow> D2 NaN NaN)"
| "expr_value args (Node (Zeros s) cs) = D2 (Fin 0) (Fin 0)"
| "expr_value args (Node (Constant c) cs) = D2 c c"
| "expr_value args (Node Add cs) = sum_list (map (expr_value args) cs)"
| "expr_value args (Node Multiply cs) =
     foldr times2 (map (expr_value args) cs) (D2 (Fin 1) (Fin 1))"
| "expr_value args (Node (Other s) cs) = D2 NaN NaN"

text \<open>
  Symbolic differentiation simplifies as it builds: a zero summand and a product with a
  zero factor vanish, so that the derivative of an expression that is linear in the
  target does not mention the target.
\<close>

fun is_zeros :: "expr \<Rightarrow> bool" where
  "is_zeros (Node (Zeros s) cs) = True"
| "is_zeros e = False"

definition simplified_add :: "expr \<Rightarrow> expr \<Rightarrow> expr" where
  "simplified_add a b = (if is_zeros a then b else if is_zeros b then a else Node Add [a, b])"

definition simplified_mul :: "expr \<Rightarrow> expr \<Rightarrow> expr" where
  "simplified_mul a b = (if is_zeros a then a else if is_zeros b then b else Node Multiply [a, b])"

fun derivative2 :: "expr \<Rightarrow> expr \<Rightarrow> expr" where
  "derivative2 (Argument n s) var =
     (if Argument n s = var then Node (Constant (Fin 1)) [] else zeros (s @ arg_shape var))"
| "derivative2 (Node Add [a, b]) var = simplified_add (derivative2 a var) (derivative2 b var)"
| "derivative2 (Node Multiply [a, b]) var =
     simplified_add (simplified_mul (derivative2 a var) b) (simplified_mul a (derivative2 b var))"
| "derivative2 (Node (Zeros s) cs) var = zeros (s @ arg_shape var)"
| "derivative2 (Node (Constant c) cs) var = zeros (arg_shape var)"
| "derivative2 (Node l cs) var = Node (Other ''derivative'') [Node l cs, var]"

fun array2 :: "dof2 \<Rightarrow> vec" where
  "array2 (D2 a b) = [a, b]"

fun diag_solve :: "dof2 \<Rightarrow> vec \<Rightarrow> vec \<Rightarrow> vec" where
  "diag_solve (D2 a b) rhs cons =
     map2 (\<lambda>(c, j) r. if isnan c then r / j else c) (zip cons [a, b]) rhs"

fun diag_matvec :: "dof2 \<Rightarrow> vec \<Rightarrow> vec" where
  "diag_matvec (D2 a b) v = map2 (\<lambda>j x. j * x) [a, b] v"

definition collab2 :: "dof2 collab" where
  "collab2 =
     \<lparr>integrate = (\<lambda>k e args. expr_value args e),
      function_derivative = derivative2,
      to_array = array2,
      matrix_solve = diag_solve,
      matrix_matvec = diag_matvec,
      set_order = remdups\<rparr>"

text \<open>The symbolic array \<open>?u\<close> of the instance, and an integral over its one domain.\<close>

definition arg_u :: expr where
  "arg_u = Argument (Str ''u'') [2]"

definition on_domain :: "expr \<Rightarrow> integral" where
  "on_domain e = Integral e [2] (0, ''gauss1'')"

text \<open>
  Two problems on the instance, both with the second degree of freedom fixed. The first
  is linear, with residual \<open>3 u - 6\<close>; the second is nonlinear, with residual
  \<open>u u - 2\<close>.
\<close>

definition P_lin :: problem where
  "P_lin =
     \<lparr>target = Str ''u'',
      residual = on_domain (Node Add [expr_mul arg_u (Fin 3), Node (Constant (Fin (- 6))) []]),
      constrain = Some (CBool [False, True]),
      arguments = Map.empty\<rparr>"


text \<open>The line-search parameters with \<open>rebound = 2\<close>, and with a bound on the rounds.\<close>

definition tuning2 :: "enat \<Rightarrow> tuning" where
  "tuning2 n = \<lparr>nrelax = n, minrelax = Fin (1/10), maxrelax = Fin (9/10), rebound = Fin 2\<rparr>"

text \<open>
  A problem whose Jacobian is singular at the initial iterate: the residual is
  \<open>u u + 1\<close> and the iterate of the free degree of freedom is 0. \<open>s_div\<close> is the state in
  which the generator of \<open>newton\<close> is suspended after its first yield on this problem.
\<close>

definition P_div :: problem where
  "P_div =
     \<lparr>target = Str ''u'',
      residual = on_domain (Node Add [Node Multiply [arg_u, arg_u], Node (Constant (Fin 1)) []]),
      constrain = Some (CBool [False, True]),
      arguments = Map.empty\<rparr>"

definition s_div :: "dof2 iterating" where
  "s_div =
     \<lparr>s_constrain = [False, True],
      s_jacobian =
        \<lparr>items = [((0, ''gauss1''),
                   Node Add [Node Multiply [Node (Constant (Fin 1)) [], arg_u],
                             Node Multiply [arg_u, Node (Constant (Fin 1)) []]])],
         shape = [2, 2]\<rparr>,
      s_zcons = [NaN, Fin 0],
      s_lhs = [Fin 0, Fin 5],
      s_res = D2 (Fin 1) (Fin 26),
      s_jac = D2 (Fin 0) (Fin 10),
      s_resnorm = Fin 1,
      s_relax = Fin 1\<rparr>"

text \<open>
  The relaxation and the messages with which round \<open>n\<close> of the line search begins, when
  each of the rounds before it has ended with a smaller relaxation to retry with.
\<close>

fun retries ::
  "('v::comm_monoid_add) collab \<Rightarrow> problem \<Rightarrow> tuning \<Rightarrow> 'v iterating \<Rightarrow> vec \<Rightarrow>
   nat \<Rightarrow> npfloat \<Rightarrow> logentry list \<Rightarrow> (npfloat \<times> logentry list) option" where
  "retries C P T s dlhs 0 relax logged = Some (relax, logged)"
| "retries C P T s dlhs (Suc n) relax logged =
     (case retries C P T s dlhs n relax logged of
        None \<Rightarrow> None
      | Some (r, l) \<Rightarrow>
          (case line_search_step C P T s dlhs r n l of
             LSRetry r' l' \<Rightarrow> Some (r', l')
           | LSReturn x \<Rightarrow> None))"

text \<open>The Newton step and the first relaxation of a round of the while loop.\<close>

definition newton_dlhs :: "'v collab \<Rightarrow> 'v iterating \<Rightarrow> vec" where
  "newton_dlhs C s = vneg (matrix_solve C (s_jac s) (to_array C (s_res s)) (s_zcons s))"

definition first_relax :: "tuning \<Rightarrow> 'v iterating \<Rightarrow> npfloat" where
  "first_relax T s = py_min (s_relax s * rebound T) (Fin 1)"

text \<open>
  The decay problem \<open>du/dt = -u\<close> on the instance: the residual and the inertia are both
  the integral \<open>int_u\<close> of \<open>u\<close>, written as the product \<open>u * 1\<close>; no degree of
  freedom is fixed in \<open>P_decay\<close>, the second one is fixed in \<open>P_decay1\<close>.
\<close>

definition int_u :: integral where
  "int_u = on_domain (expr_mul arg_u (Fin 1))"

definition P_decay :: problem where
  "P_decay =
     \<lparr>target = Str ''u'', residual = int_u, constrain = None,
      arguments = Map.empty\<rparr>"

definition P_decay1 :: problem where
  "P_decay1 =
     \<lparr>target = Str ''u'', residual = int_u, constrain = Some (CBool [False, True]),
      arguments = Map.empty\<rparr>"

text \<open>
  The value of the local \<open>thistimestep\<close> of a suspended generator of \<open>pseudotime\<close>.
\<close>

fun last_timestep :: "'v pt_state \<times> logentry list \<Rightarrow> npfloat option" where
  "last_timestep (PIter s, logged) = pt_thistimestep s"
| "last_timestep (st, logged) = None"

text \<open>
  The timestep after some rounds if every round multiplied it in place by the ratio of
  the initial residual norm to the residual norm of the round, as the specification words
  it (\<open>timestep *= norm0/norm_current\<close>).
\<close>

definition cumulative_timestep :: "npfloat \<Rightarrow> npfloat \<Rightarrow> npfloat list \<Rightarrow> npfloat" where
  "cumulative_timestep timestep norm0 norms = foldl (\<lambda>t r. t * (norm0 / r)) timestep norms"

text \<open>
  The combined residual that \<open>thetamethod\<close> builds for the decay problem with
  \<open>theta = 1\<close> and timestep \<open>dt\<close>; the previous state is the argument named by the
  anonymous object.
\<close>

definition decay_res :: "real \<Rightarrow> integral" where
  "decay_res dt =
     \<lparr>items =
        [((0, ''gauss1''),
          expr_add
            (expr_add (expr_mul (expr_mul arg_u (Fin 1)) (Fin 1))
                      (expr_mul (expr_mul arg_u (Fin 1)) (Fin (1 / dt))))
            (expr_add
               (expr_mul (expr_mul (Argument Obj [2]) (Fin 1)) (Fin 0))
               (expr_mul (expr_mul (expr_mul (Argument Obj [2]) (Fin 1)) (Fin (1 / dt)))
                  (Fin (- 1)))))],
      shape = [2]\<rparr>"


section \<open>Contracts of the collaborators\<close>

text \<open>
  Iterating over a Python set visits every element once: \<open>set_order\<close> enumerates the
  distinct keys of its argument.
\<close>

definition valid_order :: "'v collab \<Rightarrow> bool" where
  "valid_order C = (\<forall>ks. distinct (set_order C ks) \<and> set (set_order C ks) = set ks)"

text \<open>Integrating the symbolic zero array gives the numeric zero.\<close>

definition integrates_zeros :: "('v::comm_monoid_add) collab \<Rightarrow> bool" where
  "integrates_zeros C = (\<forall>k shp args. integrate C k (zeros shp) args = 0)"


section \<open>Properties of the argument resolver\<close>






section \<open>Properties of the sum of integrals\<close>

lemma update_fresh: "k \<notin> fst ` set al \<Longrightarrow> AList.update k v al = al @ [(k, v)]"
  by (induction al) auto

lemma map_of_add_items:
  "distinct (map fst bs) \<Longrightarrow>
   map_of (add_items acc bs) k =
     (case map_of bs k of
        None \<Rightarrow> map_of acc k
      | Some y \<Rightarrow> (case map_of acc k of Some x \<Rightarrow> Some (expr_add x y) | None \<Rightarrow> Some y))"
proof (induction bs arbitrary: acc)
  case Nil
  then show ?case by simp
next
  case (Cons p bs)
  obtain k' e where p: "p = (k', e)" by (cases p)
  from Cons.prems p have d: "distinct (map fst bs)" and nin: "k' \<notin> fst ` set bs" by auto
  from nin have none: "map_of bs k' = None" by (simp add: map_of_eq_None_iff)
  show ?case
    using Cons.IH[OF d] none
    by (auto simp: p update_conv' split: option.splits)
qed

lemma add_items_append:
  "distinct (map fst (acc @ bs)) \<Longrightarrow> add_items acc bs = acc @ bs"
proof (induction bs arbitrary: acc)
  case Nil
  then show ?case by simp
next
  case (Cons p bs)
  obtain k e where p: "p = (k, e)" by (cases p)
  from Cons.prems p have nin: "k \<notin> fst ` set acc" by auto
  then have none: "map_of acc k = None" by (simp add: map_of_eq_None_iff)
  from Cons.prems p have "distinct (map fst ((acc @ [(k, e)]) @ bs))" by auto
  from Cons.IH[OF this] show ?case
    by (simp add: p none update_fresh[OF nin])
qed

lemma keys_add_items:
  "set (map fst (add_items acc bs)) = set (map fst acc) \<union> set (map fst bs)"
  by (induction acc bs rule: add_items.induct) (auto simp: dom_update split: option.splits)

lemma distinct_add_items:
  "distinct (map fst acc) \<Longrightarrow> distinct (map fst (add_items acc bs))"
  by (induction acc bs rule: add_items.induct) (auto simp: distinct_update split: option.splits)

text \<open>
  Claim C6. For integrals \<open>a\<close> and \<open>b\<close> of equal shape (dicts, so their keys are
  distinct) \<open>a + b\<close> is an integral of that shape whose keys are the keys of \<open>a\<close> and
  of \<open>b\<close>; at a key of both it holds the symbolic sum of the two integrands, at a key
  of one it holds that operand's integrand unchanged. The empty integral of the shape
  of \<open>x\<close> is a left identity: \<open>empty(shape) + x\<close> is \<open>x\<close> itself.
\<close>

theorem integral_add_union:
  assumes "wf_integral a" and "wf_integral b" and "shape a = shape b"
  shows "(\<exists>c. integral_add a b = Inr c \<and> wf_integral c \<and> shape c = shape a \<and>
             set (keys c) = set (keys a) \<union> set (keys b) \<and>
             (\<forall>k. get_item c k =
                (case (get_item a k, get_item b k) of
                   (Some x, Some y) \<Rightarrow> Some (expr_add x y)
                 | (Some x, None) \<Rightarrow> Some x
                 | (None, Some y) \<Rightarrow> Some y
                 | (None, None) \<Rightarrow> None)))
         \<and> integral_add (empty (shape b)) b = Inr b"
proof -
  let ?c = "\<lparr>items = add_items (items a) (items b), shape = shape a\<rparr>"
  have c: "integral_add a b = Inr ?c"
    using assms(3) by (simp add: integral_add_def empty_def)
  have wf: "wf_integral ?c"
    using assms(1) by (simp add: wf_integral_def distinct_add_items)
  have ks: "set (keys ?c) = set (keys a) \<union> set (keys b)"
    using keys_add_items[of "items a" "items b"] by (simp add: keys_def)
  have get: "get_item ?c k =
       (case (get_item a k, get_item b k) of
          (Some x, Some y) \<Rightarrow> Some (expr_add x y)
        | (Some x, None) \<Rightarrow> Some x
        | (None, Some y) \<Rightarrow> Some y
        | (None, None) \<Rightarrow> None)" for k
    using assms(2) map_of_add_items[of "items b" "items a" k]
    by (simp add: get_item_def wf_integral_def split: option.splits)
  have first: "\<exists>c. integral_add a b = Inr c \<and> wf_integral c \<and> shape c = shape a \<and>
             set (keys c) = set (keys a) \<union> set (keys b) \<and>
             (\<forall>k. get_item c k =
                (case (get_item a k, get_item b k) of
                   (Some x, Some y) \<Rightarrow> Some (expr_add x y)
                 | (Some x, None) \<Rightarrow> Some x
                 | (None, Some y) \<Rightarrow> Some y
                 | (None, None) \<Rightarrow> None))"
    using c wf ks get by (intro exI[of _ ?c]) simp
  have "add_items [] (items b) = items b"
    using assms(2) add_items_append[of "[]" "items b"] by (simp add: wf_integral_def)
  then have second: "integral_add (empty (shape b)) b = Inr b"
    by (simp add: integral_add_def empty_def)
  from first second show ?thesis by blast
qed

theorem integral_add_union_witness:
  "wf_integral (Integral arg_u [2] (0, ''gauss1'')) \<and>
   wf_integral \<lparr>items = [((0, ''gauss1''), zeros [2]), ((1, ''gauss1''), arg_u)], shape = [2]\<rparr> \<and>
   (\<exists>c. integral_add (Integral arg_u [2] (0, ''gauss1''))
          \<lparr>items = [((0, ''gauss1''), zeros [2]), ((1, ''gauss1''), arg_u)], shape = [2]\<rparr> = Inr c \<and>
        get_item c (0, ''gauss1'') = Some (expr_add arg_u (zeros [2])) \<and>
        get_item c (1, ''gauss1'') = Some arg_u \<and>
        set (keys c) = {(0, ''gauss1''), (1, ''gauss1'')}) \<and>
   integral_add (empty [2])
     \<lparr>items = [((0, ''gauss1''), zeros [2]), ((1, ''gauss1''), arg_u)], shape = [2]\<rparr>
   = Inr \<lparr>items = [((0, ''gauss1''), zeros [2]), ((1, ''gauss1''), arg_u)], shape = [2]\<rparr>"
proof -
  let ?a = "Integral arg_u [2] (0, ''gauss1'')"
  let ?b = "\<lparr>items = [((0, ''gauss1''), zeros [2]), ((1, ''gauss1''), arg_u)], shape = [2]\<rparr>"
  have wa: "wf_integral ?a" by (simp add: wf_integral_def Integral_def)
  have wb: "wf_integral ?b" by (simp add: wf_integral_def)
  have sh: "shape ?a = shape ?b" by (simp add: Integral_def)
  from integral_add_union [OF wa wb sh]
  obtain c where c: "integral_add ?a ?b = Inr c"
    and ks: "set (keys c) = set (keys ?a) \<union> set (keys ?b)"
    and g: "\<And>k. get_item c k =
                (case (get_item ?a k, get_item ?b k) of
                   (Some x, Some y) \<Rightarrow> Some (expr_add x y)
                 | (Some x, None) \<Rightarrow> Some x
                 | (None, Some y) \<Rightarrow> Some y
                 | (None, None) \<Rightarrow> None)"
    and e: "integral_add (empty (shape ?b)) ?b = Inr ?b"
    by blast
  have g0: "get_item c (0, ''gauss1'') = Some (expr_add arg_u (zeros [2]))"
    using g[of "(0, ''gauss1'')"] by (simp add: get_item_def Integral_def)
  have g1: "get_item c (1, ''gauss1'') = Some arg_u"
    using g[of "(1, ''gauss1'')"] by (simp add: get_item_def Integral_def)
  have ks': "set (keys c) = {(0, ''gauss1''), (1, ''gauss1'')}"
    using ks by (auto simp: keys_def Integral_def)
  from e have e': "integral_add (empty [2]) ?b = Inr ?b" by simp
  show ?thesis using wa wb c g0 g1 ks' e' by blast
qed

section \<open>Properties of the evaluation of integrals\<close>

lemma foldl_rows:
  fixes g :: "'a \<Rightarrow> 'v::comm_monoid_add"
  shows "foldl (\<lambda>acc row. map2 (+) acc row) (map g L) (map (\<lambda>k. map (f k) L) ks) =
     map (\<lambda>a. g a + sum_list (map (\<lambda>k. f k a) ks)) L"
proof (induction ks arbitrary: g)
  case Nil
  then show ?case by simp
next
  case (Cons k ks)
  have step: "map2 (+) (map g L) (map (f k) L) = map (\<lambda>a. g a + f k a) L"
    by (induction L) simp_all
  show ?case
    by (simp add: step Cons.IH add.assoc)
qed

lemma np_sum_axis0_rows:
  fixes f :: "'k \<Rightarrow> 'a \<Rightarrow> 'v::comm_monoid_add"
  shows "np_sum_axis0 (map (\<lambda>k. map (f k) L) ks) =
     (if ks = [] then Scalar0 else Rows (map (\<lambda>a. sum_list (map (\<lambda>k. f k a) ks)) L))"
  by (cases ks) (simp_all add: foldl_rows)

lemma eval_as_key_sum:
  assumes "wf_integral a"
  shows "integral_eval C a args =
     sum_list (map (\<lambda>k. integrate C k (integrand_or_zeros a k) args) (keys a))"
proof -
  have "\<And>k e. (k, e) \<in> set (items a) \<Longrightarrow> integrand_or_zeros a k = e"
    using assms by (simp add: integrand_or_zeros_def get_item_def wf_integral_def)
  then have eq: "map (\<lambda>(k, integrand). integrate C k integrand args) (items a) =
        map (\<lambda>p. integrate C (fst p) (integrand_or_zeros a (fst p)) args) (items a)"
    by (intro map_cong) auto
  show ?thesis
    unfolding integral_eval_def keys_def eq by (simp add: comp_def)
qed

lemma key_sum_restrict:
  fixes C :: "('v::comm_monoid_add) collab"
  assumes "wf_integral a" and "integrates_zeros C" and "distinct ks" and "set (keys a) \<subseteq> set ks"
  shows "sum_list (map (\<lambda>k. integrate C k (integrand_or_zeros a k) args) ks) =
         integral_eval C a args"
proof -
  let ?F = "\<lambda>k. integrate C k (integrand_or_zeros a k) args"
  have zero: "?F k = 0" if "k \<notin> set (keys a)" for k
  proof -
    from that have "get_item a k = None"
      by (simp add: get_item_def keys_def map_of_eq_None_iff)
    moreover from assms(2) have "integrate C k (zeros (shape a)) args = 0"
      unfolding integrates_zeros_def by blast
    ultimately show ?thesis
      by (simp add: integrand_or_zeros_def)
  qed
  have "sum_list (map ?F ks) = sum ?F (set ks)"
    using assms(3) by (simp add: sum_list_distinct_conv_sum_set)
  also have "\<dots> = sum ?F (set (keys a))"
    using assms(4) zero by (intro sum.mono_neutral_right) auto
  also have "\<dots> = sum_list (map ?F (keys a))"
  proof -
    from assms(1) have "distinct (keys a)" by (simp add: wf_integral_def keys_def)
    then show ?thesis by (simp add: sum_list_distinct_conv_sum_set)
  qed
  also have "\<dots> = integral_eval C a args"
    using assms(1) by (simp add: eval_as_key_sum)
  finally show ?thesis .
qed

text \<open>
  Claim C7. When the set of keys is iterated without repetition and the symbolic zero
  integrates to zero, \<open>Integral.multieval\<close> over integrals (dicts, with distinct keys)
  returns for each of them the value that \<open>Integral.eval\<close> returns for it alone: the
  list of the separate values when some integral has a key, and numpy's scalar zero, which
  is then also the value of every separate evaluation, when none has.
\<close>

theorem multieval_eval:
  fixes C :: "('v::comm_monoid_add) collab"
  assumes "valid_order C" and "integrates_zeros C" and "\<forall>a \<in> set integrals. wf_integral a"
  shows "multieval C integrals args =
           (if all_keys integrals = [] then Scalar0
            else Rows (map (\<lambda>a. integral_eval C a args) integrals))
         \<and> (\<forall>i < length integrals.
               value_at (multieval C integrals args) i = integral_eval C (integrals ! i) args)"
proof -
  let ?ks = "set_order C (all_keys integrals)"
  have d: "distinct ?ks" and s: "set ?ks = set (all_keys integrals)"
    using assms(1) by (simp_all add: valid_order_def)
  have empty_iff: "?ks = [] \<longleftrightarrow> all_keys integrals = []"
    using s by (metis set_empty)
  have each: "sum_list (map (\<lambda>k. integrate C k (integrand_or_zeros a k) args) ?ks) =
              integral_eval C a args" if "a \<in> set integrals" for a
  proof -
    have "set (keys a) \<subseteq> set ?ks"
      using that s by (auto simp: all_keys_def)
    then show ?thesis
      using assms(2,3) that d by (intro key_sum_restrict) auto
  qed
  have m: "multieval C integrals args =
        (if all_keys integrals = [] then Scalar0
         else Rows (map (\<lambda>a. integral_eval C a args) integrals))"
    unfolding multieval_def np_sum_axis0_rows empty_iff
    using each by (auto intro: map_cong)
  have zero: "integral_eval C a args = 0" if "a \<in> set integrals" "all_keys integrals = []" for a
  proof -
    from that have "items a = []" by (auto simp: all_keys_def keys_def)
    then show ?thesis by (simp add: integral_eval_def)
  qed
  have "value_at (multieval C integrals args) i = integral_eval C (integrals ! i) args"
    if "i < length integrals" for i
    using that zero[of "integrals ! i"] by (simp add: m)
  with m show ?thesis by blast
qed


theorem multieval_eval_witness:
  "valid_order collab2 \<and> integrates_zeros collab2 \<and>
   wf_integral (Integral arg_u [2] (0, ''gauss1'')) \<and>
   wf_integral (Integral arg_u [2] (1, ''gauss2'')) \<and>
   multieval collab2 [Integral arg_u [2] (0, ''gauss1''), Integral arg_u [2] (1, ''gauss2'')]
     [Str ''u'' \<mapsto> [Fin 1, Fin 2]]
   = Rows [integral_eval collab2 (Integral arg_u [2] (0, ''gauss1'')) [Str ''u'' \<mapsto> [Fin 1, Fin 2]],
           integral_eval collab2 (Integral arg_u [2] (1, ''gauss2'')) [Str ''u'' \<mapsto> [Fin 1, Fin 2]]] \<and>
   integral_eval collab2 (Integral arg_u [2] (0, ''gauss1'')) [Str ''u'' \<mapsto> [Fin 1, Fin 2]]
   = D2 (Fin 1) (Fin 2)"
proof -
  let ?L = "[Integral arg_u [2] (0, ''gauss1''), Integral arg_u [2] (1, ''gauss2'')]"
  have vo: "valid_order collab2"
    by (simp add: valid_order_def collab2_def)
  have iz: "integrates_zeros collab2"
    by (simp add: integrates_zeros_def collab2_def zeros_def zero_dof2_def)
  have wf: "\<forall>a \<in> set ?L. wf_integral a"
    by (simp add: wf_integral_def Integral_def)
  have ne: "all_keys ?L \<noteq> []"
    by (simp add: all_keys_def keys_def Integral_def)
  have ev: "integral_eval collab2 (Integral arg_u [2] (0, ''gauss1'')) [Str ''u'' \<mapsto> [Fin 1, Fin 2]]
            = D2 (Fin 1) (Fin 2)"
    by (simp add: integral_eval_def Integral_def collab2_def arg_u_def zero_dof2_def zero_npfloat_def)
  from multieval_eval [OF vo iz wf, of "[Str ''u'' \<mapsto> [Fin 1, Fin 2]]"] ne
  have "multieval collab2 ?L [Str ''u'' \<mapsto> [Fin 1, Fin 2]]
        = Rows (map (\<lambda>a. integral_eval collab2 a [Str ''u'' \<mapsto> [Fin 1, Fin 2]]) ?L)"
    by presburger
  then show ?thesis using vo iz wf ev by simp
qed

section \<open>Evaluation of the model on the instance\<close>

lemmas eval_defs =
  newton_next_def newton_start_def newton_first_def newton_linear_def newton_iterate_def
  check_lhs0_def normalize_constrain_def integral_derivative_def find_argument_def
  edit_find_def contains_def eval_res_jac_def multieval2_def multieval_def all_keys_def
  keys_def integrand_or_zeros_def get_item_def ChainMap_def make_zcons_def
  nan_where_free_def arg_shape_def vshape_def np_zeros_def free_part_def axpy_def vneg_def
  vsub_def collab2_def on_domain_def Integral_def arg_u_def zeros_def expr_mul_def
  expr_add_def simplified_add_def simplified_mul_def zero_dof2_def zero_npfloat_def
  one_npfloat_def minus_npfloat_def fgt_def fge_def py_min_def py_max_def sq_def dot_def
  estimate_relax_def line_search_step_def tuning2_def Let_def numeral_2_eq_2

lemma norm_vec_single: "norm_vec [Fin a] = Fin \<bar>a\<bar>"
  by (simp add: norm_vec_def)

lemma norm_vec_PInf: "norm_vec [PInf] = PInf"
  by (simp add: norm_vec_def zero_npfloat_def)

section \<open>Properties of the Newton iterator\<close>

lemma draw_newton_done:
  "draw (newton_next C P lhs0 T) n (NDone, logged) =
     Some (replicate n StopIteration, (NDone, logged))"
  by (induction n) (simp_all add: newton_next_def)

lemma draw_newton_linear:
  "draw (newton_next C P lhs0 T) (Suc n) (NLinear, logged) =
     Some (replicate (Suc n) StopIteration, (NDone, logged))"
  by (simp add: newton_next_def draw_newton_done)

lemma nan_where_free_nth:
  "i < length fixed \<Longrightarrow> i < length v \<Longrightarrow>
   nan_where_free fixed v ! i = (if fixed ! i then v ! i else NaN)"
  by (simp add: nan_where_free_def)

text \<open>
  Claim C1. Let the inputs of \<open>newton\<close> pass its checks (the target is not among the
  arguments and is found in the residual, the initial iterate and the constraints have
  the shape of the residual), and let the Jacobian not contain the target. Then the
  generator yields exactly one pair and every further \<open>next()\<close> finds it ended. The
  vector of the pair is the constrained linear solve \<open>jac.solve(-res, constrain=cons)\<close>,
  with \<open>res\<close> and \<open>jac\<close> the residual and the Jacobian evaluated at the zero vector
  and \<open>cons\<close> holding the entries of the normalised initial iterate at the fixed positions
  and NaN at the free ones; the residual norm of the pair is 0.
\<close>

theorem newton_linear_shortcut:
  assumes "target P \<notin> dom (arguments P)"
    and "find_argument (target P) [FIntegral (residual P)] = Inr t"
    and "check_lhs0 (residual P) lhs0 = Inr l0"
    and "normalize_constrain (residual P) (constrain P) l0 = Inr (l, fixed)"
    and "integral_derivative C (residual P) (target P) = Inr jacobian"
    and "\<not> contains jacobian t"
    and "eval_res_jac C P jacobian (np_zeros (arg_shape t)) = Inr (res, jac)"
  shows "draw (newton_next C P lhs0 T) (Suc (Suc n)) (NStart, logged) =
           Some (Yield (matrix_solve C jac (vneg (to_array C res)) (nan_where_free fixed l), Fin 0)
                   # replicate (Suc n) StopIteration,
                 (NDone, logged @ [Info ''problem is linear'']))
         \<and> (\<forall>i. i < length fixed \<and> i < length l \<longrightarrow>
               nan_where_free fixed l ! i = (if fixed ! i then l ! i else NaN))"
proof -
  have start: "newton_next C P lhs0 T (NStart, logged) =
      Some (Yield (matrix_solve C jac (vneg (to_array C res)) (nan_where_free fixed l), Fin 0),
            NLinear, logged @ [Info ''problem is linear''])"
    using assms by (simp add: newton_next_def newton_start_def newton_linear_def)
  have "draw (newton_next C P lhs0 T) (Suc (Suc n)) (NStart, logged) =
           Some (Yield (matrix_solve C jac (vneg (to_array C res)) (nan_where_free fixed l), Fin 0)
                   # replicate (Suc n) StopIteration,
                 (NDone, logged @ [Info ''problem is linear'']))"
    unfolding draw.simps(2)[of _ "Suc n"] start
    by (simp add: draw_newton_linear del: draw.simps)
  then show ?thesis
    by (simp add: nan_where_free_nth)
qed

theorem newton_linear_shortcut_witness:
  "draw (newton_next collab2 P_lin (Some [Fin 1, Fin 5]) default_tuning) 3 (NStart, []) =
     Some ([Yield ([Fin 2, Fin 5], Fin 0), StopIteration, StopIteration],
           (NDone, [Info ''problem is linear'']))"
proof -
  let ?jacobian = "\<lparr>items = [((0, ''gauss1''),
                      Node Multiply [Node (Constant (Fin 1)) [], Node (Constant (Fin 3)) []])],
                    shape = [2, 2]\<rparr>"
  have a1: "target P_lin \<notin> dom (arguments P_lin)"
    by (simp add: P_lin_def)
  have a2: "find_argument (target P_lin) [FIntegral (residual P_lin)] = Inr arg_u"
    by (simp add: P_lin_def eval_defs)
  have a3: "check_lhs0 (residual P_lin) (Some [Fin 1, Fin 5]) = Inr [Fin 1, Fin 5]"
    by (simp add: P_lin_def eval_defs)
  have a4: "normalize_constrain (residual P_lin) (constrain P_lin) [Fin 1, Fin 5] =
              Inr ([Fin 1, Fin 5], [False, True])"
    by (simp add: P_lin_def eval_defs)
  have a5: "integral_derivative collab2 (residual P_lin) (target P_lin) = Inr ?jacobian"
    by (simp add: P_lin_def eval_defs)
  have a6: "\<not> contains ?jacobian arg_u"
    by (simp add: eval_defs)
  have a7: "eval_res_jac collab2 P_lin ?jacobian (np_zeros (arg_shape arg_u)) =
              Inr (D2 (Fin (- 6)) (Fin (- 6)), D2 (Fin 3) (Fin 3))"
    by (simp add: P_lin_def eval_defs)
  have solve: "matrix_solve collab2 (D2 (Fin 3) (Fin 3))
                 (vneg (to_array collab2 (D2 (Fin (- 6)) (Fin (- 6)))))
                 (nan_where_free [False, True] [Fin 1, Fin 5]) = [Fin 2, Fin 5]"
    by (simp add: eval_defs)
  from newton_linear_shortcut [OF a1 a2 a3 a4 a5 a6 a7, of default_tuning 1 "[]"]
  show ?thesis
    unfolding solve by (simp add: numeral_3_eq_3)
qed

lemma line_search_retries:
  "retries C P T s dlhs n relax logged = Some (r, l) \<Longrightarrow>
   line_search C P T s dlhs relax 0 logged = line_search C P T s dlhs r n l"
proof (induction n arbitrary: r l)
  case 0
  then show ?case by simp
next
  case (Suc n)
  from Suc.prems obtain r0 l0 where
    before: "retries C P T s dlhs n relax logged = Some (r0, l0)" and
    step: "line_search_step C P T s dlhs r0 n l0 = LSRetry r l"
    by (auto split: option.splits ls_step.splits)
  have "line_search C P T s dlhs r0 n l0 = line_search C P T s dlhs r (Suc n) l"
    by (subst line_search.simps) (simp add: step)
  with Suc.IH[OF before] show ?case by simp
qed

lemma line_search_diverged:
  assumes "nrelax T \<le> enat irelax"
    and "eval_res_jac C P (s_jacobian s) (axpy (s_lhs s) relax dlhs) = Inr (res, jac)"
    and "fgt (norm_vec (free_part (s_constrain s) (to_array C res))) (s_resnorm s)"
  shows "line_search C P T s dlhs relax irelax logged =
           Some (LSDiverged (logged @ [Warning ''failed to decrease residual'']))"
  using assms by (subst line_search.simps) (simp add: line_search_step_def)

lemma newton_iterate_alt:
  "newton_iterate C P T s logged =
     (case line_search C P T s (newton_dlhs C s) (first_relax T s) 0 logged of
        None \<Rightarrow> None
      | Some (LSDiverged logged') \<Rightarrow> Some (StopIteration, NDone, logged')
      | Some (LSRaised e logged') \<Rightarrow> Some (Raise e, NDone, logged')
      | Some (LSAccepted res jac relax' logged') \<Rightarrow>
          Some (Yield (axpy (s_lhs s) relax' (newton_dlhs C s),
                       norm_vec (free_part (s_constrain s) (to_array C res))),
                NIter (s\<lparr>s_lhs := axpy (s_lhs s) relax' (newton_dlhs C s), s_res := res,
                        s_jac := jac,
                        s_resnorm := norm_vec (free_part (s_constrain s) (to_array C res)),
                        s_relax := relax'\<rparr>),
                logged'))"
  by (simp add: newton_iterate_def newton_dlhs_def first_relax_def Let_def
      split: option.splits ls_result.splits)

lemma solve_loop_stopped:
  assumes "gen_next st = Some (StopIteration, st')"
    and "fgt resnorm tol" and "\<not> maxiter \<le> enat inewton"
  shows "solve_loop gen_next tol maxiter st lhs resnorm inewton =
           Some (Inl (ModelError ''generator stopped before reaching target tolerance''), st')"
  using assms by (subst solve_loop.simps) (simp add: solve_step_def)

text \<open>
  Claim C2. Let the generator of \<open>newton\<close> be suspended at the yield of its while loop.
  If the line search of the next round comes to the relaxation sub-step whose count has
  reached \<open>nrelax\<close> and the residual norm evaluated there exceeds the previous residual
  norm, then \<open>next()\<close> logs the warning and ends the generator with \<open>StopIteration\<close>; it
  raises nothing. The loop of \<open>solve\<close>, when it draws from the generator in that state
  with the tolerance not reached and iterations left, then raises the \<open>ModelError\<close> that
  the generator stopped before reaching the target tolerance.
\<close>

theorem newton_diverged_stops:
  assumes "retries C P T s (newton_dlhs C s) n (first_relax T s) logged = Some (relax, logged')"
    and "nrelax T \<le> enat n"
    and "eval_res_jac C P (s_jacobian s) (axpy (s_lhs s) relax (newton_dlhs C s)) = Inr (res, jac)"
    and "fgt (norm_vec (free_part (s_constrain s) (to_array C res))) (s_resnorm s)"
  shows "newton_next C P lhs0 T (NIter s, logged) =
           Some (StopIteration, NDone, logged' @ [Warning ''failed to decrease residual''])
         \<and> (fgt (s_resnorm s) tol \<and> \<not> maxiter \<le> enat inewton \<longrightarrow>
              solve_loop (newton_next C P lhs0 T) tol maxiter (NIter s, logged)
                (s_lhs s) (s_resnorm s) inewton =
              Some (Inl (ModelError ''generator stopped before reaching target tolerance''),
                    (NDone, logged' @ [Warning ''failed to decrease residual''])))"
proof -
  have "line_search C P T s (newton_dlhs C s) (first_relax T s) 0 logged =
          Some (LSDiverged (logged' @ [Warning ''failed to decrease residual'']))"
    using line_search_retries[OF assms(1)] line_search_diverged[OF assms(2,3,4)] by simp
  then have stop: "newton_next C P lhs0 T (NIter s, logged) =
           Some (StopIteration, NDone, logged' @ [Warning ''failed to decrease residual''])"
    by (simp add: newton_next_def newton_iterate_alt)
  show ?thesis
    using stop solve_loop_stopped[of "newton_next C P lhs0 T", OF stop] by blast
qed




lemma newton_start_div:
  "newton_next collab2 P_div (Some [Fin 0, Fin 5]) T (NStart, []) =
     Some (Yield ([Fin 0, Fin 5], Fin 1), NIter s_div, [])"
  by (simp add: P_div_def s_div_def eval_defs norm_vec_single)

lemma newton_dlhs_div: "newton_dlhs collab2 s_div = [NInf, Fin 0]"
  by (simp add: newton_dlhs_def s_div_def eval_defs)

lemma first_relax_div: "first_relax (tuning2 n) s_div = Fin 1"
  by (simp add: first_relax_def s_div_def eval_defs)

lemma eval_div_trial:
  "eval_res_jac collab2 P_div (s_jacobian s_div) (axpy (s_lhs s_div) (Fin 1) [NInf, Fin 0]) =
     Inr (D2 PInf (Fin 26), D2 NInf (Fin 10))"
  by (simp add: P_div_def s_div_def eval_defs)


lemma norm_div_trial:
  "norm_vec (free_part (s_constrain s_div) (to_array collab2 (D2 PInf (Fin 26)))) = PInf"
  by (simp add: s_div_def eval_defs norm_vec_PInf)

theorem newton_diverged_stops_witness:
  "newton_next collab2 P_div (Some [Fin 0, Fin 5]) (tuning2 0) (NStart, []) =
     Some (Yield ([Fin 0, Fin 5], Fin 1), NIter s_div, []) \<and>
   newton_next collab2 P_div (Some [Fin 0, Fin 5]) (tuning2 0) (NIter s_div, []) =
     Some (StopIteration, NDone, [Warning ''failed to decrease residual'']) \<and>
   solve_loop (newton_next collab2 P_div (Some [Fin 0, Fin 5]) (tuning2 0)) (Fin (1/2)) \<infinity>
     (NIter s_div, []) (s_lhs s_div) (s_resnorm s_div) 0 =
     Some (Inl (ModelError ''generator stopped before reaching target tolerance''),
           (NDone, [Warning ''failed to decrease residual'']))"
proof -
  have r: "retries collab2 P_div (tuning2 0) s_div (newton_dlhs collab2 s_div) 0
             (first_relax (tuning2 0) s_div) [] = Some (Fin 1, [])"
    by (simp add: first_relax_div)
  have n: "nrelax (tuning2 0) \<le> enat 0"
    by (simp add: tuning2_def zero_enat_def)
  have e: "eval_res_jac collab2 P_div (s_jacobian s_div)
             (axpy (s_lhs s_div) (Fin 1) (newton_dlhs collab2 s_div)) =
           Inr (D2 PInf (Fin 26), D2 NInf (Fin 10))"
    by (simp add: newton_dlhs_div eval_div_trial)
  have g: "fgt (norm_vec (free_part (s_constrain s_div) (to_array collab2 (D2 PInf (Fin 26)))))
             (s_resnorm s_div)"
    by (simp add: norm_div_trial) (simp add: s_div_def fgt_def)
  have t: "fgt (s_resnorm s_div) (Fin (1/2)) \<and> \<not> (\<infinity>::enat) \<le> enat 0"
    by (simp add: s_div_def fgt_def)
  from newton_diverged_stops [OF r n e g, of "Some [Fin 0, Fin 5]" "Fin (1/2)" \<infinity> 0] t
  show ?thesis
    by (simp add: newton_start_div)
qed



section \<open>Properties of the pseudo-time iterator\<close>

lemma draw_Suc:
  "draw gen_next (Suc n) st =
     (case gen_next st of
        None \<Rightarrow> None
      | Some (y, st') \<Rightarrow>
          (case draw gen_next n st' of
             None \<Rightarrow> None
           | Some (ys, st'') \<Rightarrow> Some (y # ys, st'')))"
  by simp

lemma draw_snoc:
  "draw gen_next (Suc n) st =
     (case draw gen_next n st of
        None \<Rightarrow> None
      | Some (ys, st') \<Rightarrow>
          (case gen_next st' of
             None \<Rightarrow> None
           | Some (y, st'') \<Rightarrow> Some (ys @ [y], st'')))"
proof (induction n arbitrary: st)
  case 0
  then show ?case by (simp split: option.splits)
next
  case (Suc n)
  show ?case
  proof (cases "gen_next st")
    case None
    then show ?thesis by (simp add: draw_Suc del: draw.simps)
  next
    case (Some p)
    obtain y st1 where p: "p = (y, st1)" by (cases p)
    have l: "draw gen_next (Suc (Suc n)) st =
          (case draw gen_next (Suc n) st1 of
             None \<Rightarrow> None
           | Some (ys, st'') \<Rightarrow> Some (y # ys, st''))"
      using Some p by (simp add: draw_Suc[of _ "Suc n"] del: draw.simps)
    have r: "draw gen_next (Suc n) st =
          (case draw gen_next n st1 of
             None \<Rightarrow> None
           | Some (ys, st'') \<Rightarrow> Some (y # ys, st''))"
      using Some p by (simp add: draw_Suc[of _ n] del: draw.simps)
    show ?thesis
      unfolding l r Suc.IH[of st1]
      by (simp split: option.splits prod.splits del: draw.simps)
  qed
qed

lemma draw_length: "draw gen_next n st = Some (ys, st') \<Longrightarrow> length ys = n"
  by (induction n arbitrary: st ys st') (auto split: option.splits prod.splits)

lemma pseudotime_start_cases:
  "pseudotime_start C P inertia timestep lhs0 residual0 logged = (y, st, logged') \<Longrightarrow>
   (st = PDone \<and> (\<exists>e. y = Raise e)) \<or>
   (\<exists>s. st = PIter s \<and> y = Yield (pt_lhs s, pt_resnorm s) \<and>
                     pt_resnorm0 s = pt_resnorm s \<and> pt_thistimestep s = None)"
  by (auto simp: pseudotime_start_def pt_setup_def Let_def
           split: if_splits sum.splits option.splits prod.splits)

lemma pseudotime_iterate_cases:
  "pseudotime_iterate C P timestep s logged = (y, st, logged') \<Longrightarrow>
   (st = PDone \<and> (\<exists>e. y = Raise e)) \<or>
   (\<exists>s'. st = PIter s' \<and> y = Yield (pt_lhs s', pt_resnorm s') \<and>
                     pt_resnorm0 s' = pt_resnorm0 s \<and>
                     pt_thistimestep s' = Some (timestep * (pt_resnorm0 s / pt_resnorm s)))"
  by (auto simp: pseudotime_iterate_def Let_def split: sum.splits prod.splits)

lemma pseudotime_next_cases:
  assumes "pseudotime_next C P inertia timestep lhs0 residual0 (st, logged) =
             Some (y, (PIter s, logged'))"
  shows "(st = PStart \<and> y = Yield (pt_lhs s, pt_resnorm s) \<and> pt_resnorm0 s = pt_resnorm s \<and>
          pt_thistimestep s = None) \<or>
         (\<exists>s0. st = PIter s0 \<and> y = Yield (pt_lhs s, pt_resnorm s) \<and>
               pt_resnorm0 s = pt_resnorm0 s0 \<and>
               pt_thistimestep s = Some (timestep * (pt_resnorm0 s0 / pt_resnorm s0)))"
proof (cases st)
  case PStart
  with assms have "pseudotime_start C P inertia timestep lhs0 residual0 logged =
                     (y, PIter s, logged')"
    by (simp add: pseudotime_next_def)
  from pseudotime_start_cases[OF this] PStart show ?thesis by simp
next
  case (PIter s0)
  with assms have "pseudotime_iterate C P timestep s0 logged = (y, PIter s, logged')"
    by (simp add: pseudotime_next_def)
  from pseudotime_iterate_cases[OF this] PIter show ?thesis by simp
next
  case PDone
  with assms show ?thesis by (simp add: pseudotime_next_def)
qed

lemma pseudotime_next_not_start:
  assumes "pseudotime_next C P inertia timestep lhs0 residual0 (st, logged) =
             Some (y, (st', logged'))"
  shows "st' \<noteq> PStart"
proof (cases st)
  case PStart
  with assms have "pseudotime_start C P inertia timestep lhs0 residual0 logged =
                     (y, st', logged')"
    by (simp add: pseudotime_next_def)
  from pseudotime_start_cases[OF this] show ?thesis by auto
next
  case (PIter s0)
  with assms have "pseudotime_iterate C P timestep s0 logged = (y, st', logged')"
    by (simp add: pseudotime_next_def)
  from pseudotime_iterate_cases[OF this] show ?thesis by auto
next
  case PDone
  with assms show ?thesis by (auto simp: pseudotime_next_def)
qed

lemma draw_last:
  assumes "draw gen_next (Suc n) st = Some (ys, st')"
  shows "\<exists>ys0 st0 y. draw gen_next n st = Some (ys0, st0) \<and> gen_next st0 = Some (y, st') \<and>
                      ys = ys0 @ [y] \<and> length ys0 = n"
proof -
  from assms obtain ys0 st0 y where
    "draw gen_next n st = Some (ys0, st0)" "gen_next st0 = Some (y, st')" "ys = ys0 @ [y]"
    unfolding draw_snoc by (auto split: option.splits prod.splits)
  moreover from this(1) have "length ys0 = n" by (rule draw_length)
  ultimately show ?thesis by blast
qed

lemma pseudotime_run:
  "draw (pseudotime_next C P inertia timestep lhs0 residual0) (Suc n) (PStart, logged) =
     Some (ys, (PIter s, logged')) \<Longrightarrow>
   (\<exists>l0. ys ! 0 = Yield (l0, pt_resnorm0 s)) \<and> ys ! n = Yield (pt_lhs s, pt_resnorm s) \<and>
   (0 < n \<longrightarrow> (\<exists>l r. ys ! (n - 1) = Yield (l, r) \<and>
                      pt_thistimestep s = Some (timestep * (pt_resnorm0 s / r))))"
proof (induction n arbitrary: ys s logged')
  case 0
  let ?gen = "pseudotime_next C P inertia timestep lhs0 residual0"
  from draw_last[OF 0] obtain y where
    nx: "?gen (PStart, logged) = Some (y, (PIter s, logged'))" and ys: "ys = [y]"
    by auto
  from pseudotime_next_cases[OF nx] show ?case
    by (auto simp: ys)
next
  case (Suc n)
  let ?gen = "pseudotime_next C P inertia timestep lhs0 residual0"
  from draw_last[OF Suc.prems] obtain ys0 st0 lg0 y where
    d0: "draw ?gen (Suc n) (PStart, logged) = Some (ys0, (st0, lg0))" and
    nx: "?gen (st0, lg0) = Some (y, (PIter s, logged'))" and
    ys: "ys = ys0 @ [y]" and len: "length ys0 = Suc n"
    by (metis surj_pair)
  from draw_last[OF d0] pseudotime_next_not_start have "st0 \<noteq> PStart"
    by (metis surj_pair)
  with pseudotime_next_cases[OF nx] obtain s0 where
    st0: "st0 = PIter s0" and y: "y = Yield (pt_lhs s, pt_resnorm s)"
    and r0: "pt_resnorm0 s = pt_resnorm0 s0"
    and ts: "pt_thistimestep s = Some (timestep * (pt_resnorm0 s0 / pt_resnorm s0))"
    by auto
  from Suc.IH[OF d0[unfolded st0]]
  have first: "\<exists>l0. ys0 ! 0 = Yield (l0, pt_resnorm0 s0)"
    and lst: "ys0 ! n = Yield (pt_lhs s0, pt_resnorm s0)"
    by auto
  show ?case
    using first lst y r0 ts len by (auto simp: ys nth_append)
qed

text \<open>
  Claim C5, as the code has it. The timestep of \<open>pseudotime\<close> does not grow
  cumulatively: the argument \<open>timestep\<close> is never assigned, and every round computes a
  fresh \<open>thistimestep = timestep * (resnorm0/resnorm)\<close> from the initial timestep, the
  residual norm of the first yield and the residual norm of the latest yield. After
  \<open>n + 2\<close> elements have been drawn, the timestep in use is the initial timestep times
  the ratio of the first yielded norm to the norm yielded as element \<open>n\<close>.
\<close>

theorem pseudotime_timestep:
  assumes "draw (pseudotime_next C P inertia timestep lhs0 residual0) (Suc (Suc n))
             (PStart, logged) = Some (ys, st)"
    and "ys ! 0 = Yield (l0, r0)" and "ys ! n = Yield (lk, rk)"
    and "ys ! Suc n = Yield (l, r)"
  shows "last_timestep st = Some (timestep * (r0 / rk))"
proof -
  let ?gen = "pseudotime_next C P inertia timestep lhs0 residual0"
  obtain stt logged' where st: "st = (stt, logged')" by (cases st)
  from draw_last[OF assms(1)] obtain ys0 st0 lg0 y where
    d0: "draw ?gen (Suc n) (PStart, logged) = Some (ys0, (st0, lg0))" and
    nx: "?gen (st0, lg0) = Some (y, (stt, logged'))" and
    ys: "ys = ys0 @ [y]" and len: "length ys0 = Suc n"
    unfolding st by (metis surj_pair)
  from ys len assms(4) have y: "y = Yield (l, r)"
    by (simp add: nth_append)
  have "\<exists>s. stt = PIter s"
  proof (cases st0)
    case PStart
    with nx have "pseudotime_start C P inertia timestep lhs0 residual0 lg0 = (y, stt, logged')"
      by (simp add: pseudotime_next_def)
    from pseudotime_start_cases[OF this] y show ?thesis
      by auto
  next
    case (PIter s0)
    with nx have "pseudotime_iterate C P timestep s0 lg0 = (y, stt, logged')"
      by (simp add: pseudotime_next_def)
    from pseudotime_iterate_cases[OF this] y show ?thesis
      by auto
  next
    case PDone
    with nx y show ?thesis by (simp add: pseudotime_next_def)
  qed
  then obtain s where s: "stt = PIter s" ..
  have "0 < Suc n" by simp
  with pseudotime_run[OF assms(1)[unfolded st s]] assms(2,3)
  show ?thesis by (auto simp: st s)
qed

lemmas pt_defs =
  pseudotime_next_def pseudotime_start_def pseudotime_iterate_def pt_setup_def
  integral_add_def integral_truediv_def integral_truediv_np_def integral_mul_def empty_def
  P_decay1_def P_decay_def int_u_def

lemma pseudotime_decay_run:
  "map_option (map_prod id last_timestep)
     (draw (pseudotime_next collab2 P_decay1 int_u (Fin 1) [Fin 8, Fin 0] None) 4 (PStart, []))
   = Some ([Yield ([Fin 8, Fin 0], Fin 8), Yield ([Fin 4, Fin 0], Fin 4),
            Yield ([Fin 2, Fin 0], Fin 2), Yield ([Fin (2/3), Fin 0], Fin (2/3))],
           Some (Fin 4))"
  by (simp add: eval_defs pt_defs norm_vec_single numeral_eq_Suc)

text \<open>
  Claim C5 as stated fails. On the decay problem with initial timestep 1 the residual
  norms of the first three yields are 8, 4 and 2; the timestep in use after the fourth is
  \<open>1 * (8/2) = 4\<close>, whereas a timestep multiplied in place by the ratios \<open>8/8\<close>,
  \<open>8/4\<close> and \<open>8/2\<close> would be 8.
\<close>

theorem pseudotime_cumulative_counterexample:
  "map_option (map_prod id last_timestep)
     (draw (pseudotime_next collab2 P_decay1 int_u (Fin 1) [Fin 8, Fin 0] None) 4 (PStart, []))
   = Some ([Yield ([Fin 8, Fin 0], Fin 8), Yield ([Fin 4, Fin 0], Fin 4),
            Yield ([Fin 2, Fin 0], Fin 2), Yield ([Fin (2/3), Fin 0], Fin (2/3))],
           Some (Fin 4)) \<and>
   cumulative_timestep (Fin 1) (Fin 8) [Fin 8, Fin 4, Fin 2] = Fin 8"
  using pseudotime_decay_run by (simp add: cumulative_timestep_def)

theorem pseudotime_timestep_witness:
  "map_option (map_prod id last_timestep)
     (draw (pseudotime_next collab2 P_decay1 int_u (Fin 1) [Fin 8, Fin 0] None) (Suc (Suc 2))
        (PStart, []))
   = Some ([Yield ([Fin 8, Fin 0], Fin 8), Yield ([Fin 4, Fin 0], Fin 4),
            Yield ([Fin 2, Fin 0], Fin 2), Yield ([Fin (2/3), Fin 0], Fin (2/3))],
           Some (Fin 1 * (Fin 8 / Fin 2)))"
proof -
  let ?ys = "[Yield ([Fin 8, Fin 0], Fin 8), Yield ([Fin 4, Fin 0], Fin 4),
              Yield ([Fin 2, Fin 0], Fin 2), Yield ([Fin (2/3), Fin 0], Fin (2/3))]"
  let ?run = "draw (pseudotime_next collab2 P_decay1 int_u (Fin 1) [Fin 8, Fin 0] None)
                (Suc (Suc 2)) (PStart, [])"
  have four: "Suc (Suc 2) = 4" by simp
  from pseudotime_decay_run obtain st where d: "?run = Some (?ys, st)"
    unfolding four by (auto simp: map_option_case split: option.splits)
  have "last_timestep st = Some (Fin 1 * (Fin 8 / Fin 2))"
    by (rule pseudotime_timestep [OF d]) simp_all
  with d show ?thesis by simp
qed

section \<open>Properties of the theta method\<close>







lemma solve_loop_converged:
  "\<not> fgt resnorm tol \<Longrightarrow>
   solve_loop gen_next tol maxiter st lhs resnorm inewton = Some (Inr lhs, st)"
  by (subst solve_loop.simps) (simp add: solve_step_def)

lemmas theta_defs =
  thetamethod_next_def thetamethod_start_def thetamethod_iterate_def impliciteuler_next_def
  resolve_target0_def theta_residual_def step_problem_def integral_add_def integral_sub_def
  integral_neg_def integral_truediv_def integral_mul_def integral_replace_def empty_def
  P_decay_def P_decay1_def int_u_def solve_def

lemma decay_residual:
  assumes "dt \<noteq> 0"
  shows "theta_residual P_decay int_u (Fin dt) (Fin 1) Obj [Fin a, Fin b] = Inr (decay_res dt)"
  using assms
  by (simp add: theta_defs decay_res_def on_domain_def Integral_def vshape_def arg_u_def
        expr_add_def expr_mul_def minus_npfloat_def)

lemma decay_newton:
  assumes "0 < dt"
  shows "newton_next collab2 (step_problem P_decay (decay_res dt) Obj [Fin a, Fin b])
           (Some [Fin a, Fin b]) T (NStart, logged) =
         Some (Yield ([Fin (a / (1 + dt)), Fin (b / (1 + dt))], Fin 0), NLinear,
               logged @ [Info ''problem is linear''])"
proof -
  have q: "(x / dt) / (1 + 1 / dt) = x / (1 + dt)" for x
    using assms by (simp add: field_simps)
  have nz: "1 + 1 / dt \<noteq> 0" "dt \<noteq> 0"
    using assms by (simp_all add: field_simps add_pos_pos)
  have m: "dt * (1 + 1 / dt) = 1 + dt"
    using assms by (simp add: field_simps)
  show ?thesis
    by (simp add: eval_defs theta_defs decay_res_def dom_def q nz m)
qed

lemma decay_solve:
  assumes "0 < dt" and "0 \<le> tol"
  shows "solve (newton_next collab2 (step_problem P_decay (decay_res dt) Obj [Fin a, Fin b])
                  (Some [Fin a, Fin b]) T) (NStart, logged) (Fin tol) \<infinity> =
         Some (Inr [Fin (a / (1 + dt)), Fin (b / (1 + dt))],
               (NLinear, logged @ [Info ''problem is linear'']))"
proof -
  have "\<not> fgt (Fin 0) (Fin tol)"
    using assms(2) by (simp add: fgt_def)
  then show ?thesis
    by (simp add: solve_def decay_newton[OF assms(1)] solve_loop_converged)
qed

lemma decay_step:
  assumes "0 < dt" and "0 \<le> tol"
  shows "thetamethod_next collab2 P_decay int_u (Fin dt) lhs0 (Fin 1) None (Fin tol) T
           (TIter (decay_res dt) Obj [Fin a, Fin b], logged) =
         Some (Yield [Fin (a / (1 + dt)), Fin (b / (1 + dt))],
               TIter (decay_res dt) Obj [Fin (a / (1 + dt)), Fin (b / (1 + dt))],
               logged @ [Info ''problem is linear''])"
  by (simp add: thetamethod_next_def thetamethod_iterate_def decay_solve[OF assms])

lemma decay_start:
  assumes "0 < dt"
  shows "thetamethod_start P_decay int_u (Fin dt) [Fin a, Fin b] (Fin 1) None logged =
           (Yield [Fin a, Fin b], TIter (decay_res dt) Obj [Fin a, Fin b], logged)"
proof -
  have "dt \<noteq> 0" using assms by simp
  from decay_residual[OF this] show ?thesis
    by (simp add: thetamethod_start_def resolve_target0_def) (simp add: P_decay_def)
qed

lemma decay_draw:
  assumes "0 < dt" and "0 \<le> tol"
  shows "draw (thetamethod_next collab2 P_decay int_u (Fin dt) [Fin a, Fin b] (Fin 1) None
                 (Fin tol) T) 2 (TStart, logged) =
         Some ([Yield [Fin a, Fin b], Yield [Fin (a / (1 + dt)), Fin (b / (1 + dt))]],
               (TIter (decay_res dt) Obj [Fin (a / (1 + dt)), Fin (b / (1 + dt))],
                logged @ [Info ''problem is linear'']))"
proof -
  have first: "thetamethod_next collab2 P_decay int_u (Fin dt) [Fin a, Fin b] (Fin 1) None
                 (Fin tol) T (TStart, logged) =
               Some (Yield [Fin a, Fin b], TIter (decay_res dt) Obj [Fin a, Fin b], logged)"
    by (simp add: thetamethod_next_def decay_start[OF assms(1)])
  show ?thesis
    by (simp add: numeral_2_eq_2 first decay_step[OF assms])
qed

text \<open>
  Claim C4. On the decay problem \<open>du/dt = -u\<close>, whose residual and inertia are both
  linear in the target, \<open>impliciteuler\<close> (the theta method with \<open>theta = 1\<close>) with a
  positive timestep \<open>dt\<close> and a non-negative tolerance yields the initial state and then
  the backward-Euler update of it, every entry \<open>u\<close> replaced by \<open>u / (1 + dt)\<close>; and
  from any state the advancing step is that update.
\<close>

theorem impliciteuler_decay:
  assumes "0 < dt" and "0 \<le> tol"
  shows "draw (impliciteuler_next collab2 P_decay int_u (Fin dt) [Fin a, Fin b] None (Fin tol) T)
           2 (TStart, logged) =
         Some ([Yield [Fin a, Fin b], Yield [Fin (a / (1 + dt)), Fin (b / (1 + dt))]],
               (TIter (decay_res dt) Obj [Fin (a / (1 + dt)), Fin (b / (1 + dt))],
                logged @ [Info ''problem is linear'']))
         \<and> impliciteuler_next collab2 P_decay int_u (Fin dt) [Fin a, Fin b] None (Fin tol) T
             (TIter (decay_res dt) Obj [Fin c, Fin d], logged) =
           Some (Yield [Fin (c / (1 + dt)), Fin (d / (1 + dt))],
                 TIter (decay_res dt) Obj [Fin (c / (1 + dt)), Fin (d / (1 + dt))],
                 logged @ [Info ''problem is linear''])"
proof -
  have eq: "impliciteuler_next collab2 P_decay int_u (Fin dt) [Fin a, Fin b] None (Fin tol) T =
        thetamethod_next collab2 P_decay int_u (Fin dt) [Fin a, Fin b] (Fin 1) None (Fin tol) T"
    by (rule ext) (simp add: impliciteuler_next_def)
  show ?thesis
    unfolding eq using decay_draw[OF assms] decay_step[OF assms] by simp
qed

theorem impliciteuler_decay_witness:
  "draw (impliciteuler_next collab2 P_decay int_u (Fin (1/2)) [Fin 3, Fin 6] None
           (Fin (1/10)) default_tuning) 2 (TStart, []) =
     Some ([Yield [Fin 3, Fin 6], Yield [Fin 2, Fin 4]],
           (TIter (decay_res (1/2)) Obj [Fin 2, Fin 4], [Info ''problem is linear'']))"
proof -
  have "(0::real) < 1/2" "(0::real) \<le> 1/10" by simp_all
  from impliciteuler_decay [OF this, of 3 6 default_tuning "[]"]
  show ?thesis by simp
qed


section \<open>Constrained entries of the Newton iterates\<close>








lemma normalize_float_imposed:
  assumes "normalize_constrain resid (Some (CFloat c)) l0 = Inr (l, fixed)"
    and "length l0 = length c" and "i < length c" and "fixed ! i"
  shows "l ! i = c ! i \<and> \<not> isnan (l ! i)"
  using assms
  by (auto simp: normalize_constrain_def split: if_splits)

lemma normalize_bool_imposed:
  assumes "normalize_constrain resid (Some (CBool b)) l0 = Inr (l, fixed)"
  shows "l = l0 \<and> fixed = b"
  using assms
  by (auto simp: normalize_constrain_def split: if_splits)









end
